theory Spec2Isabelle
  imports Main
begin

section \<open>The world of build.py: file trees, events, errors\<close>

text \<open>
  build.py is a sequential script that works on the file system and starts other programs.
  The model threads an explicit state through every call: the project tree (the current
  working directory), the tree of the user's home directory (only the log directory of
  macOS lives there) and the trace of the calls made so far. The tree has regular files and
  directories; symbolic links, permissions and case-insensitive names are outside the model.
  A path is the list of its components below the root of its tree.
\<close>

type_synonym path = "string list"

datatype content = Text string | Archive string "path list"

datatype node = File content nat | Dir "(string \<times> node) list"

datatype level = Info | Warning | Error

datatype error =
    SystemExit int
  | CalledProcessError "string list" int
  | OSError string

text \<open>
  One event per call of the script that the claims speak about: an existence test, a
  deletion, a directory creation, a file write, a mode change, a finished subprocess
  (with its exit status, or \<open>None\<close> when the program could not be started), an archive
  request, a pattern search and a log record.
\<close>

datatype event =
    Stat path
  | Rmtree path
  | Unlink path
  | Mkdir path
  | WriteFile path
  | Chmod path nat
  | Glob string
  | Run "string list" "path option" "int option"
  | MakeArchive path string path "string option"
  | Log level string

record state =
  fs :: node
  home :: node
  trace :: "event list"

datatype proc_result = NotFound | Exited int node

text \<open>
  What the script reads from its surroundings: \<open>sys.platform\<close>, the formatted
  \<open>datetime.now()\<close>, the printed form of \<open>Path.home()\<close>, and the behaviour of the
  programs it starts, a function of the argument vector, the working directory and the
  project tree they find.
\<close>

record env =
  platform :: string
  now :: string
  home_dir :: string
  run_proc :: "string list \<Rightarrow> path option \<Rightarrow> node \<Rightarrow> proc_result"

type_synonym 'a result = "(error + 'a) \<times> state"

subsection \<open>Tree operations\<close>

definition del_child :: "string \<Rightarrow> (string \<times> node) list \<Rightarrow> (string \<times> node) list" where
  "del_child x cs = filter (\<lambda>e. fst e \<noteq> x) cs"

fun put_child :: "string \<Rightarrow> node \<Rightarrow> (string \<times> node) list \<Rightarrow> (string \<times> node) list" where
  "put_child x n [] = [(x, n)]"
| "put_child x n ((y, m) # cs) = (if x = y then (x, n) # cs else (y, m) # put_child x n cs)"

fun lookup :: "node \<Rightarrow> path \<Rightarrow> node option" where
  "lookup n [] = Some n"
| "lookup (File c m) (x # p) = None"
| "lookup (Dir cs) (x # p) = (case map_of cs x of None \<Rightarrow> None | Some n \<Rightarrow> lookup n p)"

text \<open>\<open>remove\<close> deletes the entry at a path, with everything below it.\<close>

fun remove :: "path \<Rightarrow> node \<Rightarrow> node" where
  "remove [] n = n"
| "remove p (File c m) = File c m"
| "remove [x] (Dir cs) = Dir (del_child x cs)"
| "remove (x # p) (Dir cs) =
     (case map_of cs x of None \<Rightarrow> Dir cs | Some n \<Rightarrow> Dir (put_child x (remove p n) cs))"

text \<open>\<open>store\<close> puts a node at a path whose parent is a directory; elsewhere it changes nothing.\<close>

fun store :: "path \<Rightarrow> node \<Rightarrow> node \<Rightarrow> node" where
  "store [] v n = v"
| "store p v (File c m) = File c m"
| "store [x] v (Dir cs) = Dir (put_child x v cs)"
| "store (x # p) v (Dir cs) =
     (case map_of cs x of None \<Rightarrow> Dir cs | Some n \<Rightarrow> Dir (put_child x (store p v n) cs))"

definition is_dir :: "node \<Rightarrow> path \<Rightarrow> bool" where
  "is_dir t p = (case lookup t p of Some (Dir cs) \<Rightarrow> True | _ \<Rightarrow> False)"

text \<open>
  \<open>mkdir(parents=True, exist_ok=True)\<close> of pathlib, on one tree: missing ancestors are
  created, an existing directory is accepted, a regular file at the path is
  \<open>FileExistsError\<close> and a regular file above it \<open>NotADirectoryError\<close>.
\<close>

fun mkdir_parents :: "path \<Rightarrow> node \<Rightarrow> error + node" where
  "mkdir_parents [] (Dir cs) = Inr (Dir cs)"
| "mkdir_parents [] (File c m) = Inl (OSError ''FileExistsError'')"
| "mkdir_parents (x # p) (File c m) = Inl (OSError ''NotADirectoryError'')"
| "mkdir_parents (x # p) (Dir cs) =
     (case mkdir_parents p (case map_of cs x of None \<Rightarrow> Dir [] | Some n \<Rightarrow> n) of
        Inl e \<Rightarrow> Inl e
      | Inr n' \<Rightarrow> Inr (Dir (put_child x n' cs)))"

text \<open>
  The names below a node as an archive lists them: every entry of a directory with the
  given prefix, directories before their contents.
\<close>

fun members :: "path \<Rightarrow> node \<Rightarrow> path list"
  and members_list :: "path \<Rightarrow> (string \<times> node) list \<Rightarrow> path list" where
  "members p (File c m) = []"
| "members p (Dir cs) = members_list p cs"
| "members_list p [] = []"
| "members_list p ((x, n) # cs) = (p @ [x]) # members (p @ [x]) n @ members_list p cs"

subsection \<open>State, errors and the primitive calls\<close>

definition ret :: "'a \<Rightarrow> state \<Rightarrow> 'a result" where
  "ret x s = (Inr x, s)"

definition raise :: "error \<Rightarrow> state \<Rightarrow> 'a result" where
  "raise e s = (Inl e, s)"

text \<open>Sequencing: an exception ends the sequence and keeps the state reached.\<close>

definition bind :: "(state \<Rightarrow> 'a result) \<Rightarrow> ('a \<Rightarrow> state \<Rightarrow> 'b result) \<Rightarrow> state \<Rightarrow> 'b result" where
  "bind m f s = (case m s of (Inl e, s') \<Rightarrow> (Inl e, s') | (Inr x, s') \<Rightarrow> f x s')"

definition seq :: "(state \<Rightarrow> 'a result) \<Rightarrow> (state \<Rightarrow> 'b result) \<Rightarrow> state \<Rightarrow> 'b result" where
  "seq m k = bind m (\<lambda>x. k)"

definition emit :: "event \<Rightarrow> state \<Rightarrow> state" where
  "emit e s = s\<lparr>trace := trace s @ [e]\<rparr>"

definition logging :: "level \<Rightarrow> string \<Rightarrow> state \<Rightarrow> unit result" where
  "logging l msg s = (Inr (), emit (Log l msg) s)"

text \<open>\<open>str(path)\<close>: the separator is the backslash on Windows.\<close>

definition path_text :: "env \<Rightarrow> path \<Rightarrow> string" where
  "path_text E p =
     (case p of [] \<Rightarrow> ''.''
      | x # xs \<Rightarrow> foldl (\<lambda>a b. a @ (if platform E = ''win32'' then [CHR 0x5C] else ''/'') @ b) x xs)"

text \<open>\<open>Path.exists()\<close> and \<open>os.path.exists\<close>.\<close>

definition path_exists :: "path \<Rightarrow> state \<Rightarrow> bool result" where
  "path_exists p s = (Inr (lookup (fs s) p \<noteq> None), emit (Stat p) s)"

text \<open>\<open>shutil.rmtree\<close>: only a directory can be removed.\<close>

definition rmtree :: "path \<Rightarrow> state \<Rightarrow> unit result" where
  "rmtree p s =
     (case lookup (fs s) p of
        None \<Rightarrow> (Inl (OSError ''FileNotFoundError''), emit (Rmtree p) s)
      | Some (File c m) \<Rightarrow> (Inl (OSError ''NotADirectoryError''), emit (Rmtree p) s)
      | Some (Dir cs) \<Rightarrow> (Inr (), emit (Rmtree p) (s\<lparr>fs := remove p (fs s)\<rparr>)))"

text \<open>
  \<open>Path.unlink()\<close>: only a file can be unlinked. On a directory the call fails with
  \<open>IsADirectoryError\<close> on Linux and \<open>PermissionError\<close> on macOS and Windows; both are
  \<open>OSError\<close>, and the script has no handler that tells them apart.
\<close>

definition unlink :: "path \<Rightarrow> state \<Rightarrow> unit result" where
  "unlink p s =
     (case lookup (fs s) p of
        None \<Rightarrow> (Inl (OSError ''FileNotFoundError''), emit (Unlink p) s)
      | Some (Dir cs) \<Rightarrow> (Inl (OSError ''IsADirectoryError''), emit (Unlink p) s)
      | Some (File c m) \<Rightarrow> (Inr (), emit (Unlink p) (s\<lparr>fs := remove p (fs s)\<rparr>)))"

text \<open>\<open>Path.mkdir(exist_ok=True)\<close>, without \<open>parents\<close>.\<close>

definition mkdir_exist_ok :: "path \<Rightarrow> state \<Rightarrow> unit result" where
  "mkdir_exist_ok p s =
     (case lookup (fs s) p of
        Some (Dir cs) \<Rightarrow> (Inr (), emit (Mkdir p) s)
      | Some (File c m) \<Rightarrow> (Inl (OSError ''FileExistsError''), emit (Mkdir p) s)
      | None \<Rightarrow>
          (if p \<noteq> [] \<and> is_dir (fs s) (butlast p)
           then (Inr (), emit (Mkdir p) (s\<lparr>fs := store p (Dir []) (fs s)\<rparr>))
           else (Inl (OSError ''FileNotFoundError''), emit (Mkdir p) s)))"

text \<open>
  \<open>open(path, "w")\<close> followed by one \<open>write\<close>: the parent must be a directory
  (\<open>FileNotFoundError\<close> when it is missing, \<open>NotADirectoryError\<close> when it is a file) and
  the path must not be one. A new file gets mode \<open>0o644\<close> (the usual umask); an existing
  file keeps its mode.
\<close>

definition write_file :: "path \<Rightarrow> content \<Rightarrow> state \<Rightarrow> unit result" where
  "write_file p c s =
     (if p = [] then (Inl (OSError ''IsADirectoryError''), emit (WriteFile p) s)
      else case lookup (fs s) (butlast p) of
        None \<Rightarrow> (Inl (OSError ''FileNotFoundError''), emit (WriteFile p) s)
      | Some (File c1 m1) \<Rightarrow> (Inl (OSError ''NotADirectoryError''), emit (WriteFile p) s)
      | Some (Dir ds) \<Rightarrow>
         (case lookup (fs s) p of
            Some (Dir cs) \<Rightarrow> (Inl (OSError ''IsADirectoryError''), emit (WriteFile p) s)
          | Some (File c0 m) \<Rightarrow> (Inr (), emit (WriteFile p) (s\<lparr>fs := store p (File c m) (fs s)\<rparr>))
          | None \<Rightarrow> (Inr (), emit (WriteFile p) (s\<lparr>fs := store p (File c 420) (fs s)\<rparr>))))"

text \<open>\<open>Path.chmod\<close>; the model keeps a mode for files only.\<close>

definition chmod :: "path \<Rightarrow> nat \<Rightarrow> state \<Rightarrow> unit result" where
  "chmod p mode s =
     (case lookup (fs s) p of
        None \<Rightarrow> (Inl (OSError ''FileNotFoundError''), emit (Chmod p mode) s)
      | Some (Dir cs) \<Rightarrow> (Inr (), emit (Chmod p mode) s)
      | Some (File c m) \<Rightarrow> (Inr (), emit (Chmod p mode) (s\<lparr>fs := store p (File c mode) (fs s)\<rparr>)))"

text \<open>
  \<open>subprocess.run(argv, cwd=..., check=...)\<close>. The program may fail to start: the
  working directory is missing or is a file, or the program is not installed. Otherwise
  it leaves a tree and an exit status, and \<open>check=True\<close> turns a status other than 0 into
  \<open>CalledProcessError\<close>.
\<close>

definition cwd_error :: "node \<Rightarrow> path option \<Rightarrow> error option" where
  "cwd_error t cwd =
     (case cwd of
        None \<Rightarrow> None
      | Some d \<Rightarrow>
         (case lookup t d of
            None \<Rightarrow> Some (OSError ''FileNotFoundError'')
          | Some (File c m) \<Rightarrow> Some (OSError ''NotADirectoryError'')
          | Some (Dir cs) \<Rightarrow> None))"

definition subprocess_run :: "env \<Rightarrow> string list \<Rightarrow> path option \<Rightarrow> bool \<Rightarrow> state \<Rightarrow> unit result" where
  "subprocess_run E argv cwd check s =
     (case cwd_error (fs s) cwd of
        Some e \<Rightarrow> (Inl e, emit (Run argv cwd None) s)
      | None \<Rightarrow>
         (case run_proc E argv cwd (fs s) of
            NotFound \<Rightarrow> (Inl (OSError ''FileNotFoundError''), emit (Run argv cwd None) s)
          | Exited rc t \<Rightarrow>
              (if check \<and> rc \<noteq> 0 then Inl (CalledProcessError argv rc) else Inr (),
               emit (Run argv cwd (Some rc)) (s\<lparr>fs := t\<rparr>))))"

text \<open>
  \<open>shutil.make_archive(base_name, format, root_dir, base_dir)\<close>, for the zip format. The
  root must be a directory. The archive file \<open>base_name + ".zip"\<close> is opened for writing
  first (its directory is created when missing), then the tree below
  \<open>root_dir/base_dir\<close> is walked: with a \<open>base_dir\<close> the member names start with it,
  without one they are the names below \<open>root_dir\<close>.
\<close>

definition archive_file :: "path \<Rightarrow> string \<Rightarrow> path" where
  "archive_file base_name format = butlast base_name @ [last base_name @ ''.'' @ format]"

definition archive_members :: "node \<Rightarrow> path \<Rightarrow> string option \<Rightarrow> path list option" where
  "archive_members t root_dir base_dir =
     (case base_dir of
        None \<Rightarrow> map_option (members []) (lookup t root_dir)
      | Some b \<Rightarrow> map_option (\<lambda>n. [b] # members [b] n) (lookup t (root_dir @ [b])))"

definition make_archive :: "path \<Rightarrow> string \<Rightarrow> path \<Rightarrow> string option \<Rightarrow> state \<Rightarrow> unit result" where
  "make_archive base_name format root_dir base_dir s =
     (let s1 = emit (MakeArchive base_name format root_dir base_dir) s;
          zip = archive_file base_name format
      in case lookup (fs s) root_dir of
           None \<Rightarrow> (Inl (OSError ''FileNotFoundError''), s1)
         | Some (File c m) \<Rightarrow> (Inl (OSError ''NotADirectoryError''), s1)
         | Some (Dir cs) \<Rightarrow>
            (case mkdir_parents (butlast zip) (fs s) of
               Inl e \<Rightarrow> (Inl e, s1)
             | Inr t1 \<Rightarrow>
                (case lookup t1 zip of
                   Some (Dir ds) \<Rightarrow> (Inl (OSError ''IsADirectoryError''), s1\<lparr>fs := t1\<rparr>)
                 | other \<Rightarrow>
                    (let mode = (case other of Some (File c m) \<Rightarrow> m | _ \<Rightarrow> 420);
                         t2 = store zip (File (Archive format []) mode) t1
                     in case archive_members t2 root_dir base_dir of
                          None \<Rightarrow> (Inl (OSError ''FileNotFoundError''), s1\<lparr>fs := t2\<rparr>)
                        | Some ms \<Rightarrow>
                            (Inr (), s1\<lparr>fs := store zip (File (Archive format ms) mode) t2\<rparr>)))))"

text \<open>A \<open>for\<close> loop over a list: an exception in the body leaves the loop.\<close>

fun for_each :: "('a \<Rightarrow> state \<Rightarrow> unit result) \<Rightarrow> 'a list \<Rightarrow> state \<Rightarrow> unit result" where
  "for_each body [] s = (Inr (), s)"
| "for_each body (x # xs) s =
     (case body x s of (Inl e, s') \<Rightarrow> (Inl e, s') | (Inr u, s') \<Rightarrow> for_each body xs s')"

text \<open>\<open>try: body except <class> as e: handler\<close>.\<close>

definition try_except ::
  "(state \<Rightarrow> 'a result) \<Rightarrow> (error \<Rightarrow> bool) \<Rightarrow> (error \<Rightarrow> state \<Rightarrow> 'a result) \<Rightarrow> state \<Rightarrow> 'a result" where
  "try_except body caught handler s =
     (case body s of
        (Inl e, s') \<Rightarrow> if caught e then handler e s' else (Inl e, s')
      | (Inr x, s') \<Rightarrow> (Inr x, s'))"

text \<open>\<open>SystemExit\<close> derives from \<open>BaseException\<close>, not from \<open>Exception\<close>.\<close>

fun is_Exception :: "error \<Rightarrow> bool" where
  "is_Exception (SystemExit n) = False"
| "is_Exception (CalledProcessError argv rc) = True"
| "is_Exception (OSError c) = True"

fun is_CalledProcessError :: "error \<Rightarrow> bool" where
  "is_CalledProcessError (CalledProcessError argv rc) = True"
| "is_CalledProcessError (SystemExit n) = False"
| "is_CalledProcessError (OSError c) = False"

text \<open>In a log message the model prints the class of an exception where Python prints its text.\<close>

fun exc_text :: "error \<Rightarrow> string" where
  "exc_text (SystemExit n) = ''SystemExit''"
| "exc_text (CalledProcessError argv rc) = ''CalledProcessError''"
| "exc_text (OSError c) = c"

section \<open>build.py\<close>

subsection \<open>setup_logging\<close>

text \<open>
  The log directory is \<open>~/Library/Logs/TAK-Manager\<close> on macOS and \<open>logs\<close> in the project
  elsewhere. The \<open>FileHandler\<close> opens the log file for appending, which creates it. The
  records themselves go to the trace, not to the tree. The result is the printed name of
  the log file.
\<close>

definition setup_logging :: "env \<Rightarrow> state \<Rightarrow> string result" where
  "setup_logging E s =
     (let darwin = (platform E = ''darwin'');
          log_dir = (if darwin then [''Library'', ''Logs'', ''TAK-Manager''] else [''logs'']);
          log_file = log_dir @ [''build-'' @ now E @ ''.log''];
          shown = path_text E ((if darwin then [home_dir E] else []) @ log_file);
          put = (\<lambda>t. if darwin then s\<lparr>home := t\<rparr> else s\<lparr>fs := t\<rparr>)
      in case mkdir_parents log_dir (if darwin then home s else fs s) of
           Inl e \<Rightarrow> (Inl e, s)
         | Inr t \<Rightarrow>
            (case lookup t log_file of
               Some (Dir cs) \<Rightarrow> (Inl (OSError ''IsADirectoryError''), put t)
             | Some (File c m) \<Rightarrow> (Inr shown, put t)
             | None \<Rightarrow> (Inr shown, put (store log_file (File (Text []) 420) t))))"

subsection \<open>build_frontend\<close>

definition npm_cmd :: "env \<Rightarrow> string" where
  "npm_cmd E = (if platform E = ''win32'' then ''npm.cmd'' else ''npm'')"

definition build_frontend :: "env \<Rightarrow> state \<Rightarrow> unit result" where
  "build_frontend E =
     (let web_dir = [''web''] in
      bind (path_exists web_dir) (\<lambda>found.
        if \<not> found
        then seq (logging Error ''Web directory not found'') (raise (SystemExit 1))
        else
          seq (logging Info ''Building frontend...'')
          (try_except
             (let dist_dir = web_dir @ [''dist''] in
              seq (bind (path_exists dist_dir) (\<lambda>old.
                     if old
                     then seq (logging Info ''Cleaning previous frontend build...'')
                              (rmtree dist_dir)
                     else ret ()))
             (seq (subprocess_run E [npm_cmd E, ''install''] (Some web_dir) True)
                  (subprocess_run E [npm_cmd E, ''run'', ''build''] (Some web_dir) True)))
             is_CalledProcessError
             (\<lambda>e. seq (logging Error (''Error building frontend: '' @ exc_text e))
                       (raise (SystemExit 1))))))"

subsection \<open>clean_build\<close>

definition endswith :: "string \<Rightarrow> string \<Rightarrow> bool" where
  "endswith x suf = (length suf \<le> length x \<and> drop (length x - length suf) x = suf)"

text \<open>
  \<open>Path('.').glob('*.spec')\<close>: the directory is listed once, before the loop body runs,
  and the names that end in \<open>.spec\<close> are produced in listing order.
\<close>

definition spec_files :: "node \<Rightarrow> string list" where
  "spec_files t =
     (case t of
        Dir cs \<Rightarrow> filter (\<lambda>x. endswith x ''.spec'') (map fst cs)
      | File c m \<Rightarrow> [])"

definition glob_spec :: "state \<Rightarrow> string list result" where
  "glob_spec s = (Inr (spec_files (fs s)), emit (Glob ''*.spec'') s)"

text \<open>
  The loop over \<open>Path('.').glob('**/__pycache__')\<close>. The generator is lazy: it visits
  a directory, produces its \<open>__pycache__\<close> entry when there is one (a file or a
  directory), and lists the directory only after the loop body has run on that entry;
  then it descends into the subdirectories listed. The body logs and calls
  \<open>shutil.rmtree\<close>, which fails on a regular file. The walk returns the exception if
  any, the tree it leaves and the events of the loop body.
\<close>

lemma size_del_child:
  "size_list (size_prod (\<lambda>x. 0) size) (del_child x cs) \<le> size_list (size_prod (\<lambda>x. 0) size) cs"
  by (induction cs) (auto simp: del_child_def)

definition pycache_body :: "env \<Rightarrow> path \<Rightarrow> event list" where
  "pycache_body E q = [Log Info (''Cleaning '' @ path_text E q @ ''...''), Rmtree q]"

function pycache_walk :: "env \<Rightarrow> path \<Rightarrow> node \<Rightarrow> error option \<times> node \<times> event list"
  and pycache_walk_list ::
    "env \<Rightarrow> path \<Rightarrow> (string \<times> node) list \<Rightarrow> error option \<times> (string \<times> node) list \<times> event list"
  where
  "pycache_walk E p (File c m) = (None, File c m, [])"
| "pycache_walk E p (Dir cs) =
     (case map_of cs ''__pycache__'' of
        None \<Rightarrow>
          (case pycache_walk_list E p cs of (r, cs', ev) \<Rightarrow> (r, Dir cs', ev))
      | Some (File c m) \<Rightarrow>
          (Some (OSError ''NotADirectoryError''), Dir cs, pycache_body E (p @ [''__pycache__'']))
      | Some (Dir ds) \<Rightarrow>
          (case pycache_walk_list E p (del_child ''__pycache__'' cs) of
             (r, cs', ev) \<Rightarrow> (r, Dir cs', pycache_body E (p @ [''__pycache__'']) @ ev)))"
| "pycache_walk_list E p [] = (None, [], [])"
| "pycache_walk_list E p ((x, n) # cs) =
     (case pycache_walk E (p @ [x]) n of
        (Some e, n', ev) \<Rightarrow> (Some e, (x, n') # cs, ev)
      | (None, n', ev) \<Rightarrow>
          (case pycache_walk_list E p cs of
             (r, cs', ev') \<Rightarrow> (r, (x, n') # cs', ev @ ev')))"
  by pat_completeness auto

termination
proof (relation "measure (\<lambda>a. case a of
            Inl (E, p, n) \<Rightarrow> 2 * size n
          | Inr (E, p, cs) \<Rightarrow> 2 * size_list (size_prod (\<lambda>x. 0) size) cs + 1)",
       goal_cases)
  case 1
  show ?case by simp
next
  case (2 E p cs)
  show ?case by simp
next
  case (3 E p cs n ds)
  show ?case using size_del_child [of "''__pycache__''" cs] by simp
next
  case (4 E p x n cs)
  show ?case by simp
next
  case (5 E p x n cs)
  show ?case by simp
qed

definition clean_pycache :: "env \<Rightarrow> state \<Rightarrow> unit result" where
  "clean_pycache E s =
     (case pycache_walk E [] (fs s) of
        (r, t, ev) \<Rightarrow>
          (case r of None \<Rightarrow> Inr () | Some e \<Rightarrow> Inl e,
           s\<lparr>fs := t, trace := trace s @ Glob ''**/__pycache__'' # ev\<rparr>))"

text \<open>The three loops of \<open>clean_build\<close>, in the order of the source.\<close>

definition clean_dir :: "string \<Rightarrow> state \<Rightarrow> unit result" where
  "clean_dir dir_name =
     bind (path_exists [dir_name]) (\<lambda>found.
       if found
       then seq (logging Info (''Cleaning '' @ dir_name @ ''...'')) (rmtree [dir_name])
       else ret ())"

definition clean_dirs :: "state \<Rightarrow> unit result" where
  "clean_dirs = for_each clean_dir [''build'', ''dist'', ''__pycache__'']"

definition remove_spec :: "string \<Rightarrow> state \<Rightarrow> unit result" where
  "remove_spec name =
     (if name \<noteq> ''tak-manager.spec''
      then seq (logging Info (''Removing '' @ name @ ''...'')) (unlink [name])
      else ret ())"

definition remove_specs :: "state \<Rightarrow> unit result" where
  "remove_specs = bind glob_spec (for_each remove_spec)"

definition clean_build :: "env \<Rightarrow> state \<Rightarrow> unit result" where
  "clean_build E = seq clean_dirs (seq remove_specs (clean_pycache E))"

subsection \<open>ensure_resources\<close>

definition required_files :: "(string \<times> string) list" where
  "required_files =
     [(''darwin'', ''icon.icns''), (''win32'', ''icon.ico''), (''linux'', ''icon.png'')]"

text \<open>
  \<open>required_files.get(sys.platform)\<close> is \<open>None\<close> for any other platform; the names in
  the table are not empty, so the test \<open>if platform_file\<close> is the test for \<open>None\<close>.
\<close>

definition ensure_resources :: "env \<Rightarrow> state \<Rightarrow> unit result" where
  "ensure_resources E =
     (let resources_dir = [''resources''] in
      seq (mkdir_exist_ok resources_dir)
        (case map_of required_files (platform E) of
           None \<Rightarrow> ret ()
         | Some platform_file \<Rightarrow>
             (if platform_file \<noteq> []
              then (let icon_path = resources_dir @ [platform_file] in
                    bind (path_exists icon_path) (\<lambda>found.
                      if \<not> found
                      then logging Warning (platform_file @ '' not found in resources directory'')
                      else ret ()))
              else ret ())))"

subsection \<open>create_debug_script\<close>

definition debug_script_text :: string where
  "debug_script_text =
     (let nl = [CHR 0x0A]; dq = [CHR 0x22]; bs = [CHR 0x5C] in
      ''#!/bin/bash'' @ nl @
      ''# Change to the MacOS directory'' @ nl @
      ''cd '' @ dq @ ''$(dirname '' @ dq @ ''$0'' @ dq @ '')/TAK Manager.app/Contents/MacOS'' @ dq @ nl @
      nl @
      ''# Set environment variables for debugging'' @ nl @
      ''export PYTHONUNBUFFERED=1'' @ nl @
      ''export PYTHONDONTWRITEBYTECODE=1'' @ nl @
      nl @
      ''# Run the application without any arguments'' @ nl @
      ''./TAK'' @ bs @ '' Manager'' @ nl)"

definition create_debug_script :: "env \<Rightarrow> state \<Rightarrow> unit result" where
  "create_debug_script E =
     (if platform E = ''darwin''
      then (let debug_script = [''dist'', ''debug_launch.command''] in
            seq (write_file debug_script (Text debug_script_text))
           (seq (chmod debug_script 493)
                (logging Info (''Created debug launch script at '' @ path_text E debug_script))))
      else ret ())"

subsection \<open>build_app\<close>

text \<open>
  The body of the \<open>try\<close> block of \<open>build_app\<close>, in three parts: logging and cleaning
  (lines 112 to 117 of build.py), the frontend, the resources and the PyInstaller run
  (lines 119 to 127), and what follows the PyInstaller run (lines 129 to 162): the debug
  script, the archive of the platform and the three closing log records.
\<close>

definition preparation :: "env \<Rightarrow> state \<Rightarrow> string result" where
  "preparation E =
     bind (setup_logging E) (\<lambda>log_file.
       seq (logging Info (''Build log will be written to: '' @ log_file))
      (seq (clean_build E)
           (ret log_file)))"

definition pyinstaller_argv :: "string list" where
  "pyinstaller_argv = [''pyinstaller'', ''tak-manager.spec'', ''--clean'']"

definition packaging :: "env \<Rightarrow> state \<Rightarrow> unit result" where
  "packaging E =
     seq (build_frontend E)
    (seq (ensure_resources E)
    (seq (logging Info ''Building application with PyInstaller...'')
         (subprocess_run E pyinstaller_argv None True)))"

definition distribution :: "env \<Rightarrow> string \<Rightarrow> state \<Rightarrow> unit result" where
  "distribution E log_file =
     seq (create_debug_script E)
    (let dist_dir = [''dist''] in
     seq (if platform E = ''darwin''
          then (let app_name = ''TAK Manager.app'' in
                bind (path_exists (dist_dir @ [app_name])) (\<lambda>found.
                  if found
                  then seq (logging Info ''Creating macOS ZIP archive...'')
                           (make_archive (dist_dir @ [''TAK-Manager-macOS'']) ''zip''
                              dist_dir (Some app_name))
                  else ret ()))
          else if platform E = ''win32''
          then (let app_dir = dist_dir @ [''TAK Manager''] in
                bind (path_exists app_dir) (\<lambda>found.
                  if found
                  then seq (logging Info ''Creating Windows distribution archive...'')
                           (make_archive (dist_dir @ [''TAK-Manager-Windows'']) ''zip''
                              app_dir None)
                  else ret ()))
          else (let app_dir = dist_dir @ [''tak-manager''] in
                bind (path_exists app_dir) (\<lambda>found.
                  if found
                  then seq (logging Info ''Creating Linux distribution archive...'')
                           (let archive_name = path_text E (dist_dir @ [''TAK-Manager-Linux.tar.gz''])
                            in subprocess_run E
                                 [''tar'', ''czf'', archive_name, ''-C'', path_text E dist_dir,
                                  ''tak-manager'']
                                 None False)
                  else ret ())))
    (seq (logging Info ''Build completed successfully!'')
    (seq (logging Info (''Output can be found in the '' @ path_text E dist_dir @ '' directory''))
         (logging Info (''For debugging, check the log file at: '' @ log_file)))))"

definition build_app :: "env \<Rightarrow> state \<Rightarrow> unit result" where
  "build_app E =
     try_except
       (bind (preparation E) (\<lambda>log_file. seq (packaging E) (distribution E log_file)))
       is_Exception
       (\<lambda>e. seq (logging Error (''Error during build: '' @ exc_text e))
                 (raise (SystemExit 1)))"

text \<open>
  The script as a process: it starts with an empty trace and ends with status 0 when
  \<open>build_app\<close> returns, with the status of \<open>sys.exit\<close> when \<open>SystemExit\<close> leaves it, and
  with status 1 on any other exception.
\<close>

definition initial :: "node \<Rightarrow> node \<Rightarrow> state" where
  "initial project hm = \<lparr>fs = project, home = hm, trace = []\<rparr>"

definition exit_status :: "unit result \<Rightarrow> int" where
  "exit_status r =
     (case fst r of Inr u \<Rightarrow> 0 | Inl (SystemExit n) \<Rightarrow> n | Inl e \<Rightarrow> 1)"

definition main :: "env \<Rightarrow> node \<Rightarrow> node \<Rightarrow> unit result" where
  "main E project hm = build_app E (initial project hm)"

section \<open>Vocabulary of the properties\<close>

text \<open>
  A call \<open>keeps\<close> a kind of event when it adds no event of that kind to the trace,
  whatever its outcome.
\<close>

definition keeps :: "(event \<Rightarrow> bool) \<Rightarrow> (state \<Rightarrow> 'a result) \<Rightarrow> bool" where
  "keeps P m = (\<forall>s. filter P (trace (snd (m s))) = filter P (trace s))"

fun is_Run :: "event \<Rightarrow> bool" where
  "is_Run (Run argv cwd rc) = True"
| "is_Run e = False"

text \<open>
  A finished \<open>npm install\<close> or \<open>npm run build\<close> with an exit status other than 0, and
  any run of PyInstaller.
\<close>

fun npm_failure :: "env \<Rightarrow> event \<Rightarrow> bool" where
  "npm_failure E (Run argv cwd (Some rc)) =
     (rc \<noteq> 0 \<and> (argv = [npm_cmd E, ''install''] \<or> argv = [npm_cmd E, ''run'', ''build'']))"
| "npm_failure E e = False"

fun is_pyinstaller :: "event \<Rightarrow> bool" where
  "is_pyinstaller (Run argv cwd rc) = (take 1 argv = [''pyinstaller''])"
| "is_pyinstaller e = False"

text \<open>The argument vector of the archiver on Linux and the three closing log records.\<close>

definition tar_argv :: "string list" where
  "tar_argv = [''tar'', ''czf'', ''dist/TAK-Manager-Linux.tar.gz'', ''-C'', ''dist'', ''tak-manager'']"

definition success_logs :: "env \<Rightarrow> string \<Rightarrow> event list" where
  "success_logs E log_file =
     [Log Info ''Build completed successfully!'',
      Log Info (''Output can be found in the '' @ path_text E [''dist''] @ '' directory''),
      Log Info (''For debugging, check the log file at: '' @ log_file)]"

text \<open>
  The archiver as the script expects it: \<open>tar czf archive -C dir member\<close> writes the
  archive file (named from the original directory), with the member and everything
  below it, named from \<open>dir\<close>.
\<close>

definition tar_czf :: "path \<Rightarrow> path \<Rightarrow> string \<Rightarrow> node \<Rightarrow> proc_result" where
  "tar_czf archive dir member t =
     (case lookup t (dir @ [member]) of
        None \<Rightarrow> Exited 2 t
      | Some n \<Rightarrow>
          if archive \<noteq> [] \<and> is_dir t (butlast archive) \<and> \<not> is_dir t archive
          then Exited 0 (store archive (File (Archive ''tar.gz'' ([member] # members [member] n)) 420) t)
          else Exited 2 t)"

fun is_MakeArchive :: "event \<Rightarrow> bool" where
  "is_MakeArchive (MakeArchive b f r d) = True"
| "is_MakeArchive e = False"

text \<open>The mode a file written at a path gets: the mode of the file it replaces, or \<open>0o644\<close>.\<close>

definition file_mode :: "node \<Rightarrow> path \<Rightarrow> nat" where
  "file_mode t p = (case lookup t p of Some (File c m) \<Rightarrow> m | _ \<Rightarrow> 420)"

definition debug_script :: path where
  "debug_script = [''dist'', ''debug_launch.command'']"



text \<open>The output names of the Windows build.\<close>

definition windows_zip :: path where
  "windows_zip = [''dist'', ''TAK-Manager-Windows.zip'']"

definition windows_app :: path where
  "windows_app = [''dist'', ''TAK Manager'']"

text \<open>The output path that the archive step of each platform tests.\<close>

definition expected_output :: "env \<Rightarrow> path" where
  "expected_output E =
     [''dist'',
      if platform E = ''darwin'' then ''TAK Manager.app''
      else if platform E = ''win32'' then ''TAK Manager''
      else ''tak-manager'']"

text \<open>A request for an archive: a call of \<open>make_archive\<close> or a run of \<open>tar\<close>.\<close>

fun is_archive_attempt :: "event \<Rightarrow> bool" where
  "is_archive_attempt (MakeArchive b f r d) = True"
| "is_archive_attempt (Run argv cwd rc) = (take 1 argv = [''tar''])"
| "is_archive_attempt e = False"

fun is_Stat :: "event \<Rightarrow> bool" where
  "is_Stat (Stat p) = True"
| "is_Stat e = False"

text \<open>A tree is free of caches when no directory in it has an entry \<open>__pycache__\<close>.\<close>

fun pycache_free :: "node \<Rightarrow> bool"
  and pycache_free_list :: "(string \<times> node) list \<Rightarrow> bool" where
  "pycache_free (File c m) = True"
| "pycache_free (Dir cs) = (map_of cs ''__pycache__'' = None \<and> pycache_free_list cs)"
| "pycache_free_list [] = True"
| "pycache_free_list ((x, n) # cs) = (pycache_free n \<and> pycache_free_list cs)"

text \<open>
  What \<open>clean_build\<close> leaves when it returns: none of the three build directories, no
  packaging-spec name at the top level but the canonical one, and no cache anywhere.
\<close>

definition cleaned :: "node \<Rightarrow> bool" where
  "cleaned t =
     (lookup t [''build''] = None \<and> lookup t [''dist''] = None \<and> lookup t [''__pycache__''] = None
      \<and> (\<forall>x \<in> set (spec_files t). x = ''tak-manager.spec'')
      \<and> pycache_free t)"

definition clean_queries :: "event list" where
  "clean_queries =
     [Stat [''build''], Stat [''dist''], Stat [''__pycache__''],
      Glob ''*.spec'', Glob ''**/__pycache__'']"

text \<open>A deletion of the canonical packaging spec, and any call of \<open>unlink\<close>.\<close>

fun deletes_canonical :: "event \<Rightarrow> bool" where
  "deletes_canonical (Unlink p) = (p = [''tak-manager.spec''])"
| "deletes_canonical (Rmtree p) = (p = [''tak-manager.spec''])"
| "deletes_canonical e = False"

fun is_Unlink :: "event \<Rightarrow> bool" where
  "is_Unlink (Unlink p) = True"
| "is_Unlink e = False"

text \<open>A call \<open>fs_keeps\<close> a property of the project tree when it holds after the call, whatever the outcome.\<close>

definition fs_keeps :: "(node \<Rightarrow> bool) \<Rightarrow> (state \<Rightarrow> 'a result) \<Rightarrow> bool" where
  "fs_keeps R m = (\<forall>s. R (fs s) \<longrightarrow> R (fs (snd (m s))))"

subsection \<open>Sample runs\<close>

text \<open>External programs that succeed and leave the tree as it is, on Linux.\<close>

definition idle :: "string list \<Rightarrow> path option \<Rightarrow> node \<Rightarrow> proc_result" where
  "idle argv cwd t = Exited 0 t"

definition linux_env :: env where
  "linux_env =
     \<lparr>platform = ''linux'', now = ''20240101-120000'', home_dir = ''/home/u'', run_proc = idle\<rparr>"

text \<open>The state in which an empty project is left by logging and cleaning.\<close>

definition prepared :: state where
  "prepared =
     \<lparr>fs = Dir [(''logs'', Dir [(''build-20240101-120000.log'', File (Text []) 420)])],
      home = Dir [],
      trace = [Log Info ''Build log will be written to: logs/build-20240101-120000.log'',
               Stat [''build''], Stat [''dist''], Stat [''__pycache__''],
               Glob ''*.spec'', Glob ''**/__pycache__'']\<rparr>"

text \<open>A project with a frontend whose \<open>npm install\<close> fails.\<close>

definition failing_install :: "string list \<Rightarrow> path option \<Rightarrow> node \<Rightarrow> proc_result" where
  "failing_install argv cwd t = (if argv = [''npm'', ''install''] then Exited 1 t else Exited 0 t)"

definition failing_env :: env where
  "failing_env =
     \<lparr>platform = ''linux'', now = ''20240101-120000'', home_dir = ''/home/u'',
      run_proc = failing_install\<rparr>"

definition web_project :: node where
  "web_project = Dir [(''web'', Dir [(''package.json'', File (Text ''{}'') 420)])]"

text \<open>
  A Linux build whose PyInstaller leaves \<open>dist/tak-manager\<close> and whose \<open>tar\<close> ends with
  the given status, doing its work only when that status is 0.
\<close>

definition linux_tools :: "int \<Rightarrow> string list \<Rightarrow> path option \<Rightarrow> node \<Rightarrow> proc_result" where
  "linux_tools tar_status argv cwd t =
     (if take 1 argv = [''pyinstaller'']
      then Exited 0 (store [''dist'']
             (Dir [(''tak-manager'', Dir [(''tak-manager'', File (Text ''ELF'') 493),
                                          (''_internal'', Dir [])])]) t)
      else if take 1 argv = [''tar'']
      then (if tar_status = 0
            then tar_czf [''dist'', ''TAK-Manager-Linux.tar.gz''] [''dist''] ''tak-manager'' t
            else Exited tar_status t)
      else Exited 0 t)"

definition linux_build :: "int \<Rightarrow> env" where
  "linux_build tar_status =
     \<lparr>platform = ''linux'', now = ''20240101-120000'', home_dir = ''/home/u'',
      run_proc = linux_tools tar_status\<rparr>"



text \<open>A Windows build whose PyInstaller leaves the application directory.\<close>

definition windows_tools :: "string list \<Rightarrow> path option \<Rightarrow> node \<Rightarrow> proc_result" where
  "windows_tools argv cwd t =
     (if take 1 argv = [''pyinstaller'']
      then Exited 0 (store [''dist'']
             (Dir [(''TAK Manager'',
                    Dir [(''TAK Manager.exe'', File (Text ''MZ'') 493),
                         (''_internal'', Dir [(''base_library.zip'', File (Text ''PK'') 420)])])]) t)
      else Exited 0 t)"

definition windows_build :: env where
  "windows_build =
     \<lparr>platform = ''win32'', now = ''20240101-120000'', home_dir = ''C:/Users/u'',
      run_proc = windows_tools\<rparr>"

text \<open>A macOS build whose tools succeed and leave nothing.\<close>

definition macos_idle :: env where
  "macos_idle =
     \<lparr>platform = ''darwin'', now = ''20240101-120000'', home_dir = ''/Users/u'', run_proc = idle\<rparr>"

text \<open>A macOS build whose PyInstaller leaves an output directory without the bundle.\<close>

definition macos_other_tools :: "string list \<Rightarrow> path option \<Rightarrow> node \<Rightarrow> proc_result" where
  "macos_other_tools argv cwd t =
     (if take 1 argv = [''pyinstaller'']
      then Exited 0 (store [''dist''] (Dir [(''tak-manager'', File (Text ''MachO'') 493)]) t)
      else Exited 0 t)"

definition macos_other :: env where
  "macos_other =
     \<lparr>platform = ''darwin'', now = ''20240101-120000'', home_dir = ''/Users/u'',
      run_proc = macos_other_tools\<rparr>"

text \<open>A project in which \<open>resources\<close> is a regular file.\<close>

definition resources_file_project :: node where
  "resources_file_project = Dir [(''web'', Dir []), (''resources'', File (Text ''notes'') 420)]"

text \<open>A project with build directories, a stray packaging spec and caches at two depths.\<close>

definition stale_project :: node where
  "stale_project =
     Dir [(''build'', Dir [(''x.o'', File (Text ''o'') 420)]),
          (''web'', Dir [(''package.json'', File (Text ''{}'') 420)]),
          (''old.spec'', File (Text ''a'') 420),
          (''tak-manager.spec'', File (Text ''b'') 420),
          (''backend'', Dir [(''__pycache__'', Dir [(''m.pyc'', File (Text ''c'') 420)]),
                             (''routes'', Dir [(''__pycache__'', Dir [])])])]"

text \<open>A project in which \<open>build\<close> is a regular file.\<close>

definition build_file_project :: node where
  "build_file_project =
     Dir [(''build'', File (Text ''#!/bin/sh'') 493),
          (''old.spec'', File (Text ''a'') 420),
          (''tak-manager.spec'', File (Text ''b'') 420)]"

section \<open>Events added by each call\<close>

lemma keepsD: "keeps P m \<Longrightarrow> filter P (trace (snd (m s))) = filter P (trace s)"
  by (simp add: keeps_def)

lemma keeps_ret: "keeps P (ret x)"
  by (simp add: keeps_def ret_def)

lemma keeps_raise: "keeps P (raise e)"
  by (simp add: keeps_def raise_def)

lemma keeps_bind: "keeps P m \<Longrightarrow> (\<And>x. keeps P (f x)) \<Longrightarrow> keeps P (bind m f)"
  unfolding keeps_def bind_def
proof (intro allI)
  fix s
  assume m: "\<forall>s. filter P (trace (snd (m s))) = filter P (trace s)"
    and f: "\<And>x. \<forall>s. filter P (trace (snd (f x s))) = filter P (trace s)"
  show "filter P (trace (snd (case m s of (Inl e, s') \<Rightarrow> (Inl e, s') | (Inr x, s') \<Rightarrow> f x s'))) = filter P (trace s)"
  proof (cases "m s")
    case (Pair r s')
    then have "filter P (trace s') = filter P (trace s)" using m [rule_format, of s] by simp
    then show ?thesis using Pair f by (cases r) auto
  qed
qed

lemma keeps_seq: "keeps P m \<Longrightarrow> keeps P k \<Longrightarrow> keeps P (seq m k)"
  by (simp add: seq_def keeps_bind)

lemma keeps_if: "(c \<Longrightarrow> keeps P m) \<Longrightarrow> (\<not> c \<Longrightarrow> keeps P k) \<Longrightarrow> keeps P (if c then m else k)"
  by simp

lemma keeps_try_except:
  "keeps P m \<Longrightarrow> (\<And>e. keeps P (h e)) \<Longrightarrow> keeps P (try_except m c h)"
  unfolding keeps_def try_except_def
proof (intro allI)
  fix s
  assume m: "\<forall>s. filter P (trace (snd (m s))) = filter P (trace s)"
    and h: "\<And>e. \<forall>s. filter P (trace (snd (h e s))) = filter P (trace s)"
  show "filter P (trace (snd (case m s of (Inl e, s') \<Rightarrow> if c e then h e s' else (Inl e, s') | (Inr x, s') \<Rightarrow> (Inr x, s')))) = filter P (trace s)"
  proof (cases "m s")
    case (Pair r s')
    then have "filter P (trace s') = filter P (trace s)" using m [rule_format, of s] by simp
    then show ?thesis using Pair h by (cases r) auto
  qed
qed

lemma keeps_for_each: "(\<And>x. keeps P (body x)) \<Longrightarrow> keeps P (for_each body xs)"
  unfolding keeps_def
proof (induction xs)
  case Nil
  show ?case by simp
next
  case (Cons x xs)
  show ?case
  proof
    fix s
    obtain r s' where b: "body x s = (r, s')" by (cases "body x s")
    have "filter P (trace s') = filter P (trace s)" using Cons.prems [of x] b
      by (metis snd_conv)
    then show "filter P (trace (snd (for_each body (x # xs) s))) = filter P (trace s)"
      using b Cons.IH [OF Cons.prems] by (cases r) auto
  qed
qed

lemma keeps_logging: "\<not> P (Log l msg) \<Longrightarrow> keeps P (logging l msg)"
  by (simp add: keeps_def logging_def emit_def)

lemma keeps_path_exists: "\<not> P (Stat p) \<Longrightarrow> keeps P (path_exists p)"
  by (simp add: keeps_def path_exists_def emit_def)

lemma keeps_rmtree: "\<not> P (Rmtree p) \<Longrightarrow> keeps P (rmtree p)"
  by (simp add: keeps_def rmtree_def emit_def split: option.splits node.splits)

lemma keeps_unlink: "\<not> P (Unlink p) \<Longrightarrow> keeps P (unlink p)"
  by (simp add: keeps_def unlink_def emit_def split: option.splits node.splits)

lemma trace_mkdir: "trace (snd (mkdir_exist_ok p s)) = trace s @ [Mkdir p]"
  by (simp add: mkdir_exist_ok_def emit_def split: option.splits node.splits)

lemma keeps_mkdir: "\<not> P (Mkdir p) \<Longrightarrow> keeps P (mkdir_exist_ok p)"
  by (simp add: keeps_def trace_mkdir)

lemma trace_write_file: "trace (snd (write_file p c s)) = trace s @ [WriteFile p]"
  by (simp add: write_file_def emit_def split: option.splits node.splits)

lemma keeps_write_file: "\<not> P (WriteFile p) \<Longrightarrow> keeps P (write_file p c)"
  by (simp add: keeps_def trace_write_file)

lemma keeps_chmod: "\<not> P (Chmod p m) \<Longrightarrow> keeps P (chmod p m)"
  by (simp add: keeps_def chmod_def emit_def split: option.splits node.splits)

lemma keeps_glob_spec: "\<not> P (Glob ''*.spec'') \<Longrightarrow> keeps P glob_spec"
  by (simp add: keeps_def glob_spec_def emit_def)

lemma keeps_make_archive:
  "\<not> P (MakeArchive b f r d) \<Longrightarrow> keeps P (make_archive b f r d)"
  by (simp add: keeps_def make_archive_def emit_def Let_def split: option.splits node.splits sum.splits)

lemma trace_subprocess_run:
  "\<exists>rc. trace (snd (subprocess_run E argv cwd check s)) = trace s @ [Run argv cwd rc]"
  by (simp add: subprocess_run_def emit_def split: option.splits proc_result.splits)

lemma keeps_subprocess_run:
  assumes "\<And>rc. \<not> P (Run argv cwd rc)"
  shows "keeps P (subprocess_run E argv cwd check)"
  unfolding keeps_def
proof
  fix s
  obtain rc where "trace (snd (subprocess_run E argv cwd check s)) = trace s @ [Run argv cwd rc]"
    using trace_subprocess_run by blast
  then show "filter P (trace (snd (subprocess_run E argv cwd check s))) = filter P (trace s)"
    using assms by simp
qed

lemma keeps_setup_logging: "keeps P (setup_logging E)"
  by (simp add: keeps_def setup_logging_def Let_def split: option.splits node.splits sum.splits)


lemma walk_events:
  assumes "\<And>m. \<not> P (Log Info m)" and "\<And>q. \<not> P (Rmtree q)"
  shows "pycache_walk E p n = (r, n', ev) \<Longrightarrow> filter P ev = []"
    and "pycache_walk_list E p cs = (r', cs', ev') \<Longrightarrow> filter P ev' = []"
proof (induction E p n and E p cs arbitrary: r n' ev and r' cs' ev'
       rule: pycache_walk_pycache_walk_list.induct)
  case (1 E p c m)
  then show ?case by simp
next
  case (2 E p cs)
  show ?case
  proof (cases "map_of cs ''__pycache__''")
    case None
    with 2(1) 2(3) show ?thesis by (auto split: prod.splits)
  next
    case (Some n)
    show ?thesis
    proof (cases n)
      case (File c m)
      with Some assms 2(3) show ?thesis by (auto simp: pycache_body_def)
    next
      case (Dir ds)
      with Some 2(2) 2(3) assms show ?thesis by (auto simp: pycache_body_def split: prod.splits)
    qed
  qed
next
  case (3 E p)
  then show ?case by simp
next
  case (4 E p x n cs)
  show ?case
  proof (cases "pycache_walk E (p @ [x]) n")
    case (fields r n' ev)
    show ?thesis
    proof (cases r)
      case None
      with fields 4(1) 4(2) 4(3) show ?thesis
        by (auto split: prod.splits)
    next
      case (Some e)
      with fields 4(1) 4(3) show ?thesis by auto
    qed
  qed
qed

lemma keeps_clean_pycache:
  assumes "\<And>m. \<not> P (Log Info m)" and "\<And>q. \<not> P (Rmtree q)" and "\<not> P (Glob ''**/__pycache__'')"
  shows "keeps P (clean_pycache E)"
  using walk_events(1) [of P E "[]", OF assms(1,2)] assms(3)
  by (auto simp: keeps_def clean_pycache_def split: prod.splits)

lemma keeps_clean_build:
  assumes "\<And>m. \<not> P (Log Info m)" and "\<And>q. \<not> P (Rmtree q)" and "\<And>g. \<not> P (Glob g)"
    and "\<And>q. \<not> P (Stat q)" and "\<And>q. \<not> P (Unlink q)"
  shows "keeps P (clean_build E)"
  unfolding clean_build_def clean_dirs_def clean_dir_def remove_specs_def remove_spec_def
  by (intro keeps_seq keeps_bind keeps_for_each keeps_if keeps_ret keeps_logging
        keeps_path_exists keeps_rmtree keeps_unlink keeps_glob_spec keeps_clean_pycache assms)


lemma keeps_preparation:
  assumes "\<And>l m. \<not> P (Log l m)" and "\<And>q. \<not> P (Rmtree q)" and "\<And>g. \<not> P (Glob g)"
    and "\<And>q. \<not> P (Stat q)" and "\<And>q. \<not> P (Unlink q)"
  shows "keeps P (preparation E)"
  unfolding preparation_def
  by (intro keeps_seq keeps_bind keeps_ret keeps_logging keeps_setup_logging keeps_clean_build assms)

lemma build_frontend_no_web:
  assumes "lookup (fs s) [''web''] = None"
  shows "build_frontend E s =
           (Inl (SystemExit 1),
            s\<lparr>trace := trace s @ [Stat [''web''], Log Error ''Web directory not found'']\<rparr>)"
  using assms
  by (simp add: build_frontend_def Let_def bind_def seq_def path_exists_def logging_def raise_def emit_def)

lemma main_after_preparation:
  assumes "preparation E (initial project hm) = (Inr log_file, s)"
  shows "main E project hm =
           try_except (seq (packaging E) (distribution E log_file)) is_Exception
             (\<lambda>e. seq (logging Error (''Error during build: '' @ exc_text e)) (raise (SystemExit 1))) s"
  using assms by (simp add: main_def build_app_def try_except_def bind_def)

lemma keeps_ensure_resources:
  assumes "\<And>l m. \<not> P (Log l m)" and "\<And>q. \<not> P (Stat q)" and "\<And>q. \<not> P (Mkdir q)"
  shows "keeps P (ensure_resources E)"
  unfolding ensure_resources_def Let_def
  by (intro keeps_seq keeps_bind keeps_if keeps_ret keeps_logging keeps_path_exists keeps_mkdir assms)
     (auto split: option.splits intro!: keeps_seq keeps_bind keeps_if keeps_ret keeps_logging keeps_path_exists keeps_mkdir assms)

lemma keeps_create_debug_script:
  assumes "\<And>l m. \<not> P (Log l m)" and "\<And>q. \<not> P (WriteFile q)" and "\<And>q m. \<not> P (Chmod q m)"
  shows "keeps P (create_debug_script E)"
  unfolding create_debug_script_def Let_def
  by (intro keeps_seq keeps_bind keeps_if keeps_ret keeps_logging keeps_write_file keeps_chmod assms)

lemma keeps_distribution:
  assumes "\<And>l m. \<not> P (Log l m)" and "\<And>q. \<not> P (WriteFile q)" and "\<And>q m. \<not> P (Chmod q m)"
    and "\<And>q. \<not> P (Stat q)" and "\<And>b f r d. \<not> P (MakeArchive b f r d)"
    and "\<And>a b rc. \<not> P (Run [''tar'', ''czf'', a, ''-C'', b, ''tak-manager''] None rc)"
  shows "keeps P (distribution E log_file)"
  unfolding distribution_def Let_def
  by (intro keeps_seq keeps_bind keeps_if keeps_ret keeps_logging keeps_path_exists
        keeps_make_archive keeps_subprocess_run keeps_create_debug_script assms)

lemma keeps_build_frontend:
  assumes "\<And>l m. \<not> P (Log l m)" and "\<And>q. \<not> P (Stat q)" and "\<And>q. \<not> P (Rmtree q)"
    and "\<And>a c rc. \<not> P (Run (npm_cmd E # a) c rc)"
  shows "keeps P (build_frontend E)"
  unfolding build_frontend_def Let_def
  by (intro keeps_seq keeps_bind keeps_if keeps_ret keeps_raise keeps_logging keeps_path_exists
        keeps_rmtree keeps_subprocess_run keeps_try_except assms)

lemma build_frontend_exit_or_clean:
  assumes "build_frontend E s = (r, s')"
  shows "r = Inl (SystemExit 1) \<or> filter (npm_failure E) (trace s') = filter (npm_failure E) (trace s)"
  using assms
  by (auto simp: build_frontend_def Let_def bind_def seq_def try_except_def path_exists_def
        logging_def raise_def ret_def rmtree_def subprocess_run_def emit_def
      split: if_splits option.splits node.splits proc_result.splits prod.splits sum.splits)


lemma npm_cmd_not_pyinstaller: "npm_cmd E \<noteq> ''pyinstaller''"
  by (simp add: npm_cmd_def)

lemma npm_cmd_not_tar: "npm_cmd E \<noteq> ''tar''"
  by (simp add: npm_cmd_def)

lemma keeps_after_frontend:
  "keeps (npm_failure E)
     (seq (seq (ensure_resources E)
            (seq (logging Info ''Building application with PyInstaller...'')
                 (subprocess_run E pyinstaller_argv None True)))
          (distribution E log_file))"
proof -
  have other: "\<not> npm_failure E (Run argv cwd rc)"
    if "argv \<noteq> [npm_cmd E, ''install'']" and "argv \<noteq> [npm_cmd E, ''run'', ''build'']"
    for argv cwd rc
    using that by (cases rc) simp_all
  show ?thesis
    by (intro keeps_seq keeps_logging keeps_subprocess_run keeps_ensure_resources
          keeps_distribution other)
       (simp_all add: pyinstaller_argv_def)
qed

lemma seq_assoc: "seq (seq a b) c = seq a (seq b c)"
  by (auto simp: seq_def bind_def fun_eq_iff split: prod.splits sum.splits)

lemma exit_handler:
  "try_except m is_Exception
     (\<lambda>e. seq (logging Error (''Error during build: '' @ exc_text e)) (raise (SystemExit 1))) s = (r, s')
   \<Longrightarrow> m s = (r0, s0)
   \<Longrightarrow> filter P (trace s') = filter P (trace s0) @ filter P (drop (length (trace s0)) (trace s'))
     \<and> (\<forall>e \<in> set (drop (length (trace s0)) (trace s')). \<exists>msg. e = Log Error msg)
     \<and> (r0 = Inl (SystemExit 1) \<longrightarrow> r = r0 \<and> s' = s0)"
  by (cases r0; cases "is_Exception (projl r0)")
     (auto simp: try_except_def seq_def bind_def logging_def raise_def emit_def)

section \<open>The claims\<close>

text \<open>
  Claim C1. A run of the script whose trace holds an \<open>npm install\<close> or an
  \<open>npm run build\<close> that ended with a status other than 0 ends with exit status 1, and
  its trace holds no run of PyInstaller.
\<close>

theorem npm_failure_halts:
  assumes "\<exists>e \<in> set (trace (snd (main E project hm))). npm_failure E e"
  shows "exit_status (main E project hm) = 1
       \<and> filter is_pyinstaller (trace (snd (main E project hm))) = []"
proof -
  let ?h = "\<lambda>e. seq (logging Error (''Error during build: '' @ exc_text e)) (raise (SystemExit 1))"
  let ?body = "bind (preparation E) (\<lambda>log_file. seq (packaging E) (distribution E log_file))"
  obtain r s' where m: "main E project hm = (r, s')" by (cases "main E project hm")
  obtain r0 s0 where b: "?body (initial project hm) = (r0, s0)"
    by (cases "?body (initial project hm)")
  have te: "try_except ?body is_Exception ?h (initial project hm) = (r, s')"
    using m by (simp add: main_def build_app_def)
  from exit_handler [OF te b, of "npm_failure E"]
  have tail: "filter (npm_failure E) (trace s') = filter (npm_failure E) (trace s0)"
    and exit: "r0 = Inl (SystemExit 1) \<Longrightarrow> r = r0 \<and> s' = s0"
    by (auto simp: filter_empty_conv)
  from assms m have "filter (npm_failure E) (trace s') \<noteq> []"
    by (simp add: filter_empty_conv)
  with tail have fail0: "filter (npm_failure E) (trace s0) \<noteq> []"
    by simp
  have kp: "keeps (npm_failure E) (preparation E)"
    by (rule keeps_preparation) simp_all
  obtain rp sp where p: "preparation E (initial project hm) = (rp, sp)"
    by (cases "preparation E (initial project hm)")
  have sp_clean: "filter (npm_failure E) (trace sp) = []"
    using keepsD [OF kp, of "initial project hm"] p by (simp add: initial_def)
  have sp_py: "filter is_pyinstaller (trace sp) = []"
    using keepsD [OF keeps_preparation [of is_pyinstaller E], of "initial project hm"] p
    by (simp add: initial_def)
  show ?thesis
  proof (cases rp)
    case (Inl e)
    with b p have "s0 = sp" by (simp add: bind_def)
    with fail0 sp_clean show ?thesis by simp
  next
    case (Inr log_file)
    obtain rf sf where f: "build_frontend E sp = (rf, sf)" by (cases "build_frontend E sp")
    have body: "(r0, s0) =
        seq (build_frontend E)
          (seq (seq (ensure_resources E)
                 (seq (logging Info ''Building application with PyInstaller...'')
                      (subprocess_run E pyinstaller_argv None True)))
               (distribution E log_file)) sp"
      using b p Inr by (simp add: bind_def packaging_def seq_assoc)
    show ?thesis
    proof (cases "rf = Inl (SystemExit 1)")
      case True
      with body f have "r0 = Inl (SystemExit 1)" and "s0 = sf"
        by (simp_all add: seq_def bind_def)
      with exit have r: "r = Inl (SystemExit 1)" and s: "s' = sf" by simp_all
      have "keeps is_pyinstaller (build_frontend E)"
        by (rule keeps_build_frontend) (simp_all add: npm_cmd_not_pyinstaller)
      then have "filter is_pyinstaller (trace sf) = []"
        using keepsD [of is_pyinstaller "build_frontend E" sp] f sp_py by simp
      with r s m show ?thesis by (simp add: exit_status_def)
    next
      case False
      with build_frontend_exit_or_clean [OF f] sp_clean
      have sf_clean: "filter (npm_failure E) (trace sf) = []" by simp
      have "filter (npm_failure E) (trace s0) = []"
      proof (cases rf)
        case (Inl e)
        with body f have "s0 = sf" by (simp add: seq_def bind_def)
        with sf_clean show ?thesis by simp
      next
        case (Inr u)
        with body f have "s0 = snd (seq (seq (ensure_resources E)
                 (seq (logging Info ''Building application with PyInstaller...'')
                      (subprocess_run E pyinstaller_argv None True)))
               (distribution E log_file) sf)"
          by (simp add: seq_def [of "build_frontend E"] bind_def split: prod.splits)
             (metis snd_conv)
        with keepsD [OF keeps_after_frontend, of E log_file sf] sf_clean
        show ?thesis by simp
      qed
      with fail0 show ?thesis by simp
    qed
  qed
qed

theorem npm_failure_halts_witness:
  "(\<exists>e \<in> set (trace (snd (main failing_env web_project (Dir [])))). npm_failure failing_env e)
 \<and> exit_status (main failing_env web_project (Dir [])) = 1
 \<and> filter is_pyinstaller (trace (snd (main failing_env web_project (Dir [])))) = []"
proof -
  have failed:
    "\<exists>e \<in> set (trace (snd (main failing_env web_project (Dir [])))). npm_failure failing_env e"
    by code_simp
  show ?thesis
    using failed npm_failure_halts [OF failed] by simp
qed

text \<open>
  Claim C2. When \<open>web\<close> does not exist on entry, \<open>build_frontend\<close> tests the path, logs
  the error and raises \<open>SystemExit(1)\<close>: it starts no subprocess. In the script, where
  \<open>build_frontend\<close> is entered in the state left by logging and cleaning, the process then
  ends with status 1 and its whole trace holds no subprocess.
\<close>

theorem build_frontend_without_web:
  assumes "lookup (fs s) [''web''] = None"
  shows "build_frontend E s =
           (Inl (SystemExit 1),
            s\<lparr>trace := trace s @ [Stat [''web''], Log Error ''Web directory not found'']\<rparr>)
       \<and> (preparation E (initial project hm) = (Inr log_file, s) \<longrightarrow>
            exit_status (main E project hm) = 1
          \<and> filter is_Run (trace (snd (main E project hm))) = [])"
proof (intro conjI impI)
  show bf: "build_frontend E s =
           (Inl (SystemExit 1),
            s\<lparr>trace := trace s @ [Stat [''web''], Log Error ''Web directory not found'']\<rparr>)"
    by (rule build_frontend_no_web [OF assms])
  assume prep: "preparation E (initial project hm) = (Inr log_file, s)"
  have m: "main E project hm =
           (Inl (SystemExit 1),
            s\<lparr>trace := trace s @ [Stat [''web''], Log Error ''Web directory not found'']\<rparr>)"
    by (simp add: main_after_preparation [OF prep] try_except_def packaging_def seq_def bind_def bf)
  show "exit_status (main E project hm) = 1"
    by (simp add: m exit_status_def)
  have "keeps is_Run (preparation E)"
    by (rule keeps_preparation) simp_all
  then have "filter is_Run (trace s) = []"
    using keepsD [of is_Run "preparation E" "initial project hm"] prep
    by (simp add: initial_def)
  then show "filter is_Run (trace (snd (main E project hm))) = []"
    by (simp add: m)
qed

lemma prepared_run:
  "preparation linux_env (initial (Dir []) (Dir [])) =
     (Inr ''logs/build-20240101-120000.log'', prepared)"
  by code_simp

theorem build_frontend_without_web_witness:
  "lookup (fs prepared) [''web''] = None
 \<and> preparation linux_env (initial (Dir []) (Dir [])) =
     (Inr ''logs/build-20240101-120000.log'', prepared)
 \<and> fst (build_frontend linux_env prepared) = Inl (SystemExit 1)
 \<and> exit_status (main linux_env (Dir []) (Dir [])) = 1
 \<and> filter is_Run (trace (snd (main linux_env (Dir []) (Dir [])))) = []"
proof -
  have absent: "lookup (fs prepared) [''web''] = None"
    by (simp add: prepared_def)
  show ?thesis
    using absent prepared_run
      build_frontend_without_web [OF absent, of linux_env "Dir []" "Dir []"
        "''logs/build-20240101-120000.log''"]
    by simp
qed

lemma main_after_packaging:
  assumes "preparation E (initial project hm) = (Inr log_file, s1)"
    and "packaging E s1 = (Inr (), s2)"
  shows "main E project hm =
           try_except (distribution E log_file) is_Exception
             (\<lambda>e. seq (logging Error (''Error during build: '' @ exc_text e)) (raise (SystemExit 1))) s2"
  using assms by (simp add: main_def build_app_def try_except_def bind_def seq_def)

lemma distribution_linux:
  assumes "platform E = ''linux''" and "lookup (fs s) [''dist'', ''tak-manager''] \<noteq> None"
  shows "distribution E log_file s =
     (case run_proc E tar_argv None (fs s) of
        NotFound \<Rightarrow>
          (Inl (OSError ''FileNotFoundError''),
           s\<lparr>trace := trace s @ [Stat [''dist'', ''tak-manager''],
                Log Info ''Creating Linux distribution archive...'', Run tar_argv None None]\<rparr>)
      | Exited rc t \<Rightarrow>
          (Inr (),
           s\<lparr>fs := t,
             trace := trace s @ [Stat [''dist'', ''tak-manager''],
                Log Info ''Creating Linux distribution archive...'', Run tar_argv None (Some rc)]
                @ success_logs E log_file\<rparr>))"
  using assms
  by (simp add: distribution_def create_debug_script_def Let_def seq_def bind_def ret_def
        path_exists_def logging_def emit_def subprocess_run_def cwd_error_def path_text_def
        tar_argv_def success_logs_def
      split: proc_result.splits)

lemma map_of_put_child: "map_of (put_child x n cs) y = (if y = x then Some n else map_of cs y)"
  by (induction cs) auto

lemma lookup_store_child:
  "is_dir t [d] \<Longrightarrow> lookup (store [d, a] v t) [d, b] = (if b = a then Some v else lookup t [d, b])"
  by (cases t) (auto simp: is_dir_def map_of_put_child split: option.splits node.splits)

lemma members_rooted:
  "\<forall>q \<in> set (members p n). take (length p) q = p"
  "\<forall>q \<in> set (members_list p cs). take (length p) q = p"
proof (induction p n and p cs rule: members_members_list.induct)
  case (4 p x n cs)
  have "\<And>q. take (Suc (length p)) q = p @ [x] \<Longrightarrow> take (length p) q = p"
    by (metis append_eq_conv_conj length_append_singleton lessI less_imp_le_nat take_take min.absorb1 butlast_snoc butlast_take diff_Suc_1 length_take)
  with 4 show ?case by auto
qed simp_all

lemma tar_czf_result:
  assumes "lookup t [''dist'', ''tak-manager''] = Some n"
    and "\<not> is_dir t [''dist'', ''TAK-Manager-Linux.tar.gz'']"
  shows "tar_czf [''dist'', ''TAK-Manager-Linux.tar.gz''] [''dist''] ''tak-manager'' t =
           Exited 0 (store [''dist'', ''TAK-Manager-Linux.tar.gz'']
             (File (Archive ''tar.gz'' ([''tak-manager''] # members [''tak-manager''] n)) 420) t)"
proof -
  from assms(1) have "is_dir t [''dist'']"
    by (cases t) (auto simp: is_dir_def split: option.splits node.splits)
  with assms show ?thesis by (simp add: tar_czf_def)
qed

text \<open>
  Claim C6. On Linux, when the packaging step has left \<open>dist/tak-manager\<close>, the only
  action of the script after the existence test is one run of
  \<open>tar czf dist/TAK-Manager-Linux.tar.gz -C dist tak-manager\<close>, and no archive is made in
  any other way. When the program started is the archiver, the run ends with status 0 and
  leaves \<open>dist/TAK-Manager-Linux.tar.gz\<close>, whose first member is \<open>tak-manager\<close> and
  whose other members all lie below it.
\<close>

theorem linux_archive_by_tar:
  assumes "platform E = ''linux''"
    and "preparation E (initial project hm) = (Inr log_file, s1)"
    and "packaging E s1 = (Inr (), s2)"
    and "lookup (fs s2) [''dist'', ''tak-manager''] = Some n"
  shows "(\<exists>r rest. trace (snd (main E project hm)) =
            trace s2 @ [Stat [''dist'', ''tak-manager''],
              Log Info ''Creating Linux distribution archive...'', Run tar_argv None r] @ rest
          \<and> filter is_Run rest = [] \<and> filter is_MakeArchive rest = [])
       \<and> (run_proc E tar_argv None (fs s2) =
            tar_czf [''dist'', ''TAK-Manager-Linux.tar.gz''] [''dist''] ''tak-manager'' (fs s2)
          \<and> \<not> is_dir (fs s2) [''dist'', ''TAK-Manager-Linux.tar.gz'']
          \<longrightarrow> exit_status (main E project hm) = 0
            \<and> lookup (fs (snd (main E project hm))) [''dist'', ''TAK-Manager-Linux.tar.gz''] =
                Some (File (Archive ''tar.gz'' ([''tak-manager''] # members [''tak-manager''] n)) 420)
            \<and> (\<forall>q \<in> set (members [''tak-manager''] n). take 1 q = [''tak-manager'']))"
proof (intro conjI impI)
  have ex: "lookup (fs s2) [''dist'', ''tak-manager''] \<noteq> None" using assms(4) by simp
  note m = main_after_packaging [OF assms(2,3)]
  note d = distribution_linux [OF assms(1) ex, of log_file]
  show "\<exists>r rest. trace (snd (main E project hm)) =
            trace s2 @ [Stat [''dist'', ''tak-manager''],
              Log Info ''Creating Linux distribution archive...'', Run tar_argv None r] @ rest
          \<and> filter is_Run rest = [] \<and> filter is_MakeArchive rest = []"
  proof (cases "run_proc E tar_argv None (fs s2)")
    case NotFound
    then have "trace (snd (main E project hm)) =
            trace s2 @ [Stat [''dist'', ''tak-manager''],
              Log Info ''Creating Linux distribution archive...'', Run tar_argv None None]
            @ [Log Error ''Error during build: FileNotFoundError'']"
      by (simp add: m d try_except_def seq_def bind_def logging_def raise_def emit_def)
    then show ?thesis by (intro exI conjI) (assumption, simp_all)
  next
    case (Exited rc t)
    then have "trace (snd (main E project hm)) =
            trace s2 @ [Stat [''dist'', ''tak-manager''],
              Log Info ''Creating Linux distribution archive...'', Run tar_argv None (Some rc)]
            @ success_logs E log_file"
      by (simp add: m d try_except_def)
    then show ?thesis by (intro exI conjI) (assumption, simp_all add: success_logs_def)
  qed
next
  assume tar: "run_proc E tar_argv None (fs s2) =
            tar_czf [''dist'', ''TAK-Manager-Linux.tar.gz''] [''dist''] ''tak-manager'' (fs s2)
          \<and> \<not> is_dir (fs s2) [''dist'', ''TAK-Manager-Linux.tar.gz'']"
  have ex: "lookup (fs s2) [''dist'', ''tak-manager''] \<noteq> None" using assms(4) by simp
  note m = main_after_packaging [OF assms(2,3)]
  note d = distribution_linux [OF assms(1) ex, of log_file]
  from assms(4) have dist: "is_dir (fs s2) [''dist'']"
    by (cases "fs s2") (auto simp: is_dir_def split: option.splits node.splits)
  from tar tar_czf_result [OF assms(4)]
  have r: "run_proc E tar_argv None (fs s2) =
     Exited 0 (store [''dist'', ''TAK-Manager-Linux.tar.gz'']
             (File (Archive ''tar.gz'' ([''tak-manager''] # members [''tak-manager''] n)) 420) (fs s2))"
    by simp
  show "exit_status (main E project hm) = 0"
    by (simp add: m d r try_except_def exit_status_def)
  show "lookup (fs (snd (main E project hm))) [''dist'', ''TAK-Manager-Linux.tar.gz''] =
                Some (File (Archive ''tar.gz'' ([''tak-manager''] # members [''tak-manager''] n)) 420)"
    by (simp add: m d r try_except_def lookup_store_child [OF dist])
next
  show "\<forall>q \<in> set (members [''tak-manager''] n). take 1 q = [''tak-manager'']"
    using members_rooted(1) [of "[''tak-manager'']" n] by simp
qed

theorem linux_archive_by_tar_witness:
  "Run tar_argv None (Some 0) \<in> set (trace (snd (main (linux_build 0) web_project (Dir []))))
 \<and> exit_status (main (linux_build 0) web_project (Dir [])) = 0
 \<and> lookup (fs (snd (main (linux_build 0) web_project (Dir [])))) [''dist'', ''TAK-Manager-Linux.tar.gz'']
     = Some (File (Archive ''tar.gz''
         [[''tak-manager''], [''tak-manager'', ''tak-manager''], [''tak-manager'', ''_internal'']]) 420)"
proof -
  let ?E = "linux_build 0"
  let ?p = "preparation ?E (initial web_project (Dir []))"
  let ?s2 = "snd (packaging ?E (snd ?p))"
  let ?n = "Dir [(''tak-manager'', File (Text ''ELF'') 493), (''_internal'', Dir [])]"
  have 1: "platform ?E = ''linux''" by (simp add: linux_build_def)
  have 2: "?p = (Inr ''logs/build-20240101-120000.log'', snd ?p)" by code_simp
  have 3: "packaging ?E (snd ?p) = (Inr (), ?s2)" by code_simp
  have 4: "lookup (fs ?s2) [''dist'', ''tak-manager''] = Some ?n" by code_simp
  have 5: "run_proc ?E tar_argv None (fs ?s2) =
            tar_czf [''dist'', ''TAK-Manager-Linux.tar.gz''] [''dist''] ''tak-manager'' (fs ?s2)
          \<and> \<not> is_dir (fs ?s2) [''dist'', ''TAK-Manager-Linux.tar.gz'']" by code_simp
  have 6: "Run tar_argv None (Some 0) \<in> set (trace (snd (main ?E web_project (Dir []))))"
    by code_simp
  show ?thesis
    using linux_archive_by_tar [OF 1 2 3 4] 5 6 by simp
qed

text \<open>
  Claim C9. On Linux, when \<open>tar\<close> ends with a status other than 0, the script goes on:
  it logs the success records, the process ends with status 0, and the project tree is
  the one \<open>tar\<close> left, with or without an archive.
\<close>

theorem tar_failure_ignored:
  assumes "platform E = ''linux''"
    and "preparation E (initial project hm) = (Inr log_file, s1)"
    and "packaging E s1 = (Inr (), s2)"
    and "lookup (fs s2) [''dist'', ''tak-manager''] \<noteq> None"
    and "run_proc E tar_argv None (fs s2) = Exited rc t"
    and "rc \<noteq> 0"
  shows "exit_status (main E project hm) = 0
       \<and> trace (snd (main E project hm)) =
           trace s2 @ [Stat [''dist'', ''tak-manager''],
             Log Info ''Creating Linux distribution archive...'', Run tar_argv None (Some rc)]
           @ success_logs E log_file
       \<and> fs (snd (main E project hm)) = t"
  using assms
  by (simp add: main_after_packaging [OF assms(2,3)] distribution_linux try_except_def
        exit_status_def)

theorem tar_failure_ignored_witness:
  "exit_status (main (linux_build 2) web_project (Dir [])) = 0
 \<and> Run tar_argv None (Some 2) \<in> set (trace (snd (main (linux_build 2) web_project (Dir []))))
 \<and> Log Info ''Build completed successfully!''
      \<in> set (trace (snd (main (linux_build 2) web_project (Dir []))))
 \<and> lookup (fs (snd (main (linux_build 2) web_project (Dir []))))
      [''dist'', ''TAK-Manager-Linux.tar.gz''] = None"
proof -
  let ?E = "linux_build 2"
  let ?p = "preparation ?E (initial web_project (Dir []))"
  let ?s2 = "snd (packaging ?E (snd ?p))"
  have 1: "platform ?E = ''linux''" by (simp add: linux_build_def)
  have 2: "?p = (Inr ''logs/build-20240101-120000.log'', snd ?p)" by code_simp
  have 3: "packaging ?E (snd ?p) = (Inr (), ?s2)" by code_simp
  have 4: "lookup (fs ?s2) [''dist'', ''tak-manager''] \<noteq> None" by code_simp
  have 5: "run_proc ?E tar_argv None (fs ?s2) = Exited 2 (fs ?s2)" by code_simp
  have 6: "(2::int) \<noteq> 0" by simp
  have 7: "lookup (fs ?s2) [''dist'', ''TAK-Manager-Linux.tar.gz''] = None" by code_simp
  show ?thesis
    using tar_failure_ignored [OF 1 2 3 4 5 6] 7
    by (simp add: success_logs_def)
qed

lemma put_child_same: "map_of cs x = Some n \<Longrightarrow> put_child x n cs = cs"
  by (induction cs) (auto split: if_splits)

lemma is_dir_store_child: "is_dir t [d] \<Longrightarrow> is_dir (store [d, a] v t) [d]"
  by (cases t) (auto simp: is_dir_def map_of_put_child split: option.splits node.splits)

lemma mkdir_parents_existing: "is_dir t [d] \<Longrightarrow> mkdir_parents [d] t = Inr t"
  by (cases t) (auto simp: is_dir_def put_child_same split: option.splits node.splits)

lemma is_dir_parent: "lookup t [d, a] = Some n \<Longrightarrow> is_dir t [d]"
  by (cases t) (auto simp: is_dir_def split: option.splits node.splits)

lemma is_dir_lookup: "is_dir t p \<Longrightarrow> \<exists>cs. lookup t p = Some (Dir cs)"
  by (auto simp: is_dir_def split: option.splits node.splits)

lemma members_prefix_all:
  fixes q :: path
  shows "\<forall>p. members p n = map (\<lambda>r. p @ r) (members [] n)"
    and "\<forall>p. members_list p cs = map (\<lambda>r. p @ r) (members_list [] cs)"
proof (induction q n and q cs rule: members_members_list.induct)
  case (1 q c m)
  show ?case by simp
next
  case (2 q cs)
  show ?case
  proof
    fix p
    show "members p (Dir cs) = map (\<lambda>r. p @ r) (members [] (Dir cs))"
      using 2 [rule_format, of p] by simp
  qed
next
  case (3 q)
  show ?case by simp
next
  case (4 q x n cs)
  show ?case
  proof
    fix p
    have a: "members (p @ [x]) n = map (\<lambda>r. (p @ [x]) @ r) (members [] n)"
      using 4(1) by blast
    have b: "members [x] n = map (\<lambda>r. [x] @ r) (members [] n)"
      using 4(1) by blast
    have c: "members_list p cs = map (\<lambda>r. p @ r) (members_list [] cs)"
      using 4(2) by blast
    show "members_list p ((x, n) # cs) = map (\<lambda>r. p @ r) (members_list [] ((x, n) # cs))"
      by (simp add: a b c)
  qed
qed

lemma members_prefix: "members p n = map (\<lambda>r. p @ r) (members [] n)"
  using members_prefix_all(1) [of n] by blast

lemma create_debug_script_darwin:
  assumes "platform E = ''darwin''" and "is_dir (fs s) [''dist'']"
    and "\<not> is_dir (fs s) debug_script"
  shows "create_debug_script E s =
     (Inr (),
      s\<lparr>fs := store debug_script (File (Text debug_script_text) 493)
                (store debug_script (File (Text debug_script_text) (file_mode (fs s) debug_script)) (fs s)),
        trace := trace s @ [WriteFile debug_script, Chmod debug_script 493,
                  Log Info ''Created debug launch script at dist/debug_launch.command'']\<rparr>)"
  using assms
  by (auto simp: create_debug_script_def write_file_def chmod_def seq_def bind_def logging_def
        emit_def Let_def debug_script_def file_mode_def path_text_def lookup_store_child is_dir_def
      split: option.splits node.splits)

lemma create_debug_script_other:
  "platform E \<noteq> ''darwin'' \<Longrightarrow> create_debug_script E s = (Inr (), s)"
  by (simp add: create_debug_script_def ret_def)

lemma make_archive_zip:
  assumes "is_dir (fs s) [d]" and "is_dir (fs s) root"
    and "\<not> is_dir (fs s) [d, zn @ ''.zip'']"
    and "archive_members (store [d, zn @ ''.zip''] (File (Archive ''zip'' []) (file_mode (fs s) [d, zn @ ''.zip''])) (fs s)) root b = Some ms"
  shows "make_archive [d, zn] ''zip'' root b s =
     (Inr (),
      s\<lparr>fs := store [d, zn @ ''.zip''] (File (Archive ''zip'' ms) (file_mode (fs s) [d, zn @ ''.zip'']))
                (store [d, zn @ ''.zip''] (File (Archive ''zip'' []) (file_mode (fs s) [d, zn @ ''.zip''])) (fs s)),
        trace := trace s @ [MakeArchive [d, zn] ''zip'' root b]\<rparr>)"
proof -
  obtain cs where r: "lookup (fs s) root = Some (Dir cs)"
    using assms(2) is_dir_lookup by blast
  have m: "mkdir_parents [d] (fs s) = Inr (fs s)"
    by (rule mkdir_parents_existing [OF assms(1)])
  show ?thesis
  proof (cases "lookup (fs s) [d, zn @ ''.zip'']")
    case None
    with r m assms(4) show ?thesis
      by (simp add: make_archive_def archive_file_def emit_def Let_def file_mode_def)
  next
    case (Some n)
    with assms(3) obtain c md where "n = File c md"
      by (cases n) (auto simp: is_dir_def)
    with Some r m assms(4) show ?thesis
      by (simp add: make_archive_def archive_file_def emit_def Let_def file_mode_def)
  qed
qed




lemma main_of_distribution:
  assumes "preparation E (initial project hm) = (Inr log_file, s1)"
    and "packaging E s1 = (Inr (), s2)"
    and "distribution E log_file s2 = (Inr (), s')"
  shows "main E project hm = (Inr (), s')"
  using assms(3) by (simp add: main_after_packaging [OF assms(1,2)] try_except_def)



lemma children_are_members: "(x, n) \<in> set cs \<Longrightarrow> [x] \<in> set (members_list [] cs)"
  by (induction cs) auto

lemma distribution_win32:
  assumes "platform E = ''win32''"
    and "lookup (fs s) windows_app = Some (Dir cs)"
    and "\<not> is_dir (fs s) windows_zip"
  shows "\<exists>s'. distribution E log_file s = (Inr (), s')
     \<and> trace s' = trace s @ [Stat windows_app, Log Info ''Creating Windows distribution archive...'',
           MakeArchive [''dist'', ''TAK-Manager-Windows''] ''zip'' windows_app None]
           @ success_logs E log_file
     \<and> lookup (fs s') windows_zip =
          Some (File (Archive ''zip'' (members [] (Dir cs))) (file_mode (fs s) windows_zip))
     \<and> lookup (fs s') windows_app = Some (Dir cs)"
proof -
  have d0: "is_dir (fs s) [''dist'']"
    using assms(2) by (auto simp: windows_app_def intro: is_dir_parent)
  have a0: "is_dir (fs s) windows_app"
    using assms(2) by (simp add: is_dir_def)
  define s1 where "s1 = s\<lparr>trace := trace s @ [Stat windows_app, Log Info ''Creating Windows distribution archive...'']\<rparr>"
  define z0 where "z0 = store windows_zip (File (Archive ''zip'' []) (file_mode (fs s) windows_zip)) (fs s)"
  have mem: "archive_members z0 windows_app None = Some (members [] (Dir cs))"
    using assms(2) d0
    by (simp add: archive_members_def z0_def windows_zip_def windows_app_def lookup_store_child)
  have fs1: "fs s1 = fs s" by (simp add: s1_def)
  define s3 where "s3 = s1\<lparr>fs := store windows_zip (File (Archive ''zip'' (members [] (Dir cs)))
                    (file_mode (fs s) windows_zip)) z0,
        trace := trace s1 @ [MakeArchive [''dist'', ''TAK-Manager-Windows''] ''zip'' windows_app None]
                 @ success_logs E log_file\<rparr>"
  have ma: "make_archive [''dist'', ''TAK-Manager-Windows''] ''zip'' windows_app None s1 =
     (Inr (),
      s1\<lparr>fs := store windows_zip (File (Archive ''zip'' (members [] (Dir cs)))
                    (file_mode (fs s) windows_zip)) z0,
        trace := trace s1 @ [MakeArchive [''dist'', ''TAK-Manager-Windows''] ''zip'' windows_app None]\<rparr>)"
    using make_archive_zip [of s1 "''dist''" windows_app "''TAK-Manager-Windows''" None
            "members [] (Dir cs)"] d0 a0 assms(3) mem
    by (simp add: fs1 windows_zip_def z0_def)
  have dz: "is_dir z0 [''dist'']"
    unfolding z0_def windows_zip_def by (intro is_dir_store_child d0)
  have "distribution E log_file s = (Inr (), s3)"
    using assms(1,2) ma
    by (simp add: distribution_def create_debug_script_other Let_def seq_def bind_def
          path_exists_def logging_def emit_def s3_def s1_def windows_app_def success_logs_def)
  moreover have "trace s3 = trace s @ [Stat windows_app, Log Info ''Creating Windows distribution archive...'',
           MakeArchive [''dist'', ''TAK-Manager-Windows''] ''zip'' windows_app None]
           @ success_logs E log_file"
    by (simp add: s3_def s1_def)
  moreover have "lookup (fs s3) windows_zip =
          Some (File (Archive ''zip'' (members [] (Dir cs))) (file_mode (fs s) windows_zip))"
    using dz by (simp add: s3_def windows_zip_def lookup_store_child)
  moreover have "lookup (fs s3) windows_app = Some (Dir cs)"
    using assms(2) d0 dz
    by (simp add: s3_def z0_def windows_zip_def windows_app_def lookup_store_child)
  ultimately show ?thesis by blast
qed

text \<open>
  Claim C10. On Windows, when the packaging step has left the directory
  \<open>dist/TAK Manager\<close> (and no directory at the name of the archive), the script calls
  \<open>make_archive\<close> with root \<open>dist/TAK Manager\<close> and no base directory. The members of
  \<open>dist/TAK-Manager-Windows.zip\<close> are the names below that directory, each of its entries
  at the top level. A call in the style of macOS, with root \<open>dist\<close> and the directory
  as base, would list the directory itself first and every other member below its name.
\<close>

theorem windows_archive_flat:
  assumes "platform E = ''win32''"
    and "preparation E (initial project hm) = (Inr log_file, s1)"
    and "packaging E s1 = (Inr (), s2)"
    and "lookup (fs s2) windows_app = Some (Dir cs)"
    and "\<not> is_dir (fs s2) windows_zip"
  shows "exit_status (main E project hm) = 0
     \<and> trace (snd (main E project hm)) =
         trace s2 @ [Stat windows_app, Log Info ''Creating Windows distribution archive...'',
           MakeArchive [''dist'', ''TAK-Manager-Windows''] ''zip'' windows_app None]
           @ success_logs E log_file
     \<and> lookup (fs (snd (main E project hm))) windows_zip =
         Some (File (Archive ''zip'' (members [] (Dir cs))) (file_mode (fs s2) windows_zip))
     \<and> (\<forall>e \<in> set cs. [fst e] \<in> set (members [] (Dir cs)))
     \<and> archive_members (fs s2) [''dist''] (Some ''TAK Manager'') =
         Some ([''TAK Manager''] # map (\<lambda>q. [''TAK Manager''] @ q) (members [] (Dir cs)))"
proof -
  obtain s' where d: "distribution E log_file s2 = (Inr (), s')"
    and t: "trace s' = trace s2 @ [Stat windows_app, Log Info ''Creating Windows distribution archive...'',
           MakeArchive [''dist'', ''TAK-Manager-Windows''] ''zip'' windows_app None]
           @ success_logs E log_file"
    and z: "lookup (fs s') windows_zip =
          Some (File (Archive ''zip'' (members [] (Dir cs))) (file_mode (fs s2) windows_zip))"
    using distribution_win32 [OF assms(1,4,5), of log_file] by blast
  have m: "main E project hm = (Inr (), s')"
    by (rule main_of_distribution [OF assms(2,3) d])
  have c: "\<forall>e \<in> set cs. [fst e] \<in> set (members [] (Dir cs))"
    using children_are_members by fastforce
  have b: "archive_members (fs s2) [''dist''] (Some ''TAK Manager'') =
         Some ([''TAK Manager''] # map (\<lambda>q. [''TAK Manager''] @ q) (members [] (Dir cs)))"
    using assms(4) members_prefix [of "[''TAK Manager'']" "Dir cs"]
    by (simp add: archive_members_def windows_app_def)
  show ?thesis
    using t z c b by (simp add: m exit_status_def)
qed

theorem windows_archive_flat_witness:
  "exit_status (main windows_build web_project (Dir [])) = 0
 \<and> lookup (fs (snd (main windows_build web_project (Dir [])))) windows_zip =
     Some (File (Archive ''zip''
        [[''TAK Manager.exe''], [''_internal''], [''_internal'', ''base_library.zip'']]) 420)"
proof -
  let ?E = "windows_build"
  let ?p = "preparation ?E (initial web_project (Dir []))"
  let ?s2 = "snd (packaging ?E (snd ?p))"
  let ?cs = "[(''TAK Manager.exe'', File (Text ''MZ'') 493),
              (''_internal'', Dir [(''base_library.zip'', File (Text ''PK'') 420)])]"
  have 1: "platform ?E = ''win32''" by (simp add: windows_build_def)
  have 2: "?p = (Inr (''logs'' @ [CHR 0x5C] @ ''build-20240101-120000.log''), snd ?p)"
    by code_simp
  have 3: "packaging ?E (snd ?p) = (Inr (), ?s2)" by code_simp
  have 4: "lookup (fs ?s2) windows_app = Some (Dir ?cs)" by code_simp
  have 5: "\<not> is_dir (fs ?s2) windows_zip" by code_simp
  have 7: "file_mode (fs ?s2) windows_zip = 420" by code_simp
  have 8: "members [] (Dir ?cs) =
        [[''TAK Manager.exe''], [''_internal''], [''_internal'', ''base_library.zip'']]" by code_simp
  show ?thesis
    using windows_archive_flat [OF 1 2 3 4 5] 7 8 by simp
qed

lemma distribution_without_output:
  assumes "lookup (fs s) (expected_output E) = None"
    and "platform E = ''darwin'' \<longrightarrow> is_dir (fs s) [''dist''] \<and> \<not> is_dir (fs s) debug_script"
  shows "\<exists>s'. distribution E log_file s = (Inr (), s')
     \<and> trace s' = trace s @
          (if platform E = ''darwin''
           then [WriteFile debug_script, Chmod debug_script 493,
                 Log Info ''Created debug launch script at dist/debug_launch.command'']
           else [])
          @ [Stat (expected_output E)] @ success_logs E log_file
     \<and> (platform E \<noteq> ''darwin'' \<longrightarrow> fs s' = fs s)"
proof (cases "platform E = ''darwin''")
  case True
  with assms have d0: "is_dir (fs s) [''dist'']" and g: "\<not> is_dir (fs s) debug_script"
    by simp_all
  have a: "lookup (fs s) [''dist'', ''TAK Manager.app''] = None"
    using assms(1) True by (simp add: expected_output_def)
  show ?thesis
    using True a d0
    by (simp add: distribution_def create_debug_script_darwin [OF True d0 g] Let_def seq_def
          bind_def ret_def path_exists_def logging_def emit_def expected_output_def
          success_logs_def debug_script_def lookup_store_child is_dir_store_child)
next
  case False
  show ?thesis
  proof (cases "platform E = ''win32''")
    case True
    with assms(1) have "lookup (fs s) [''dist'', ''TAK Manager''] = None"
      by (simp add: expected_output_def)
    with True show ?thesis
      by (simp add: distribution_def create_debug_script_other Let_def seq_def
            bind_def ret_def path_exists_def logging_def emit_def expected_output_def
            success_logs_def)
  next
    case other: False
    with False assms(1) have "lookup (fs s) [''dist'', ''tak-manager''] = None"
      by (simp add: expected_output_def)
    with False other show ?thesis
      by (simp add: distribution_def create_debug_script_other Let_def seq_def
            bind_def ret_def path_exists_def logging_def emit_def expected_output_def
            success_logs_def)
  qed
qed

lemma keeps_packaging:
  assumes "\<And>l m. \<not> P (Log l m)" and "\<And>q. \<not> P (Stat q)" and "\<And>q. \<not> P (Rmtree q)"
    and "\<And>q. \<not> P (Mkdir q)"
    and "\<And>a c rc. \<not> P (Run (npm_cmd E # a) c rc)"
    and "\<And>rc. \<not> P (Run pyinstaller_argv None rc)"
  shows "keeps P (packaging E)"
  unfolding packaging_def
  by (intro keeps_seq keeps_logging keeps_subprocess_run keeps_build_frontend
        keeps_ensure_resources assms)

lemma create_debug_script_fails:
  assumes "platform E = ''darwin''"
    and "\<not> (is_dir (fs s) [''dist''] \<and> \<not> is_dir (fs s) debug_script)"
  shows "\<exists>c. create_debug_script E s =
           (Inl (OSError c), s\<lparr>trace := trace s @ [WriteFile debug_script]\<rparr>)"
  using assms
  by (auto simp: create_debug_script_def write_file_def seq_def bind_def emit_def Let_def
        debug_script_def is_dir_def
      split: option.splits node.splits)

lemma distribution_no_attempt:
  assumes "lookup (fs s) (expected_output E) = None"
  shows "filter is_archive_attempt (trace (snd (distribution E log_file s))) =
         filter is_archive_attempt (trace s)"
proof (cases "platform E = ''darwin'' \<longrightarrow> is_dir (fs s) [''dist''] \<and> \<not> is_dir (fs s) debug_script")
  case True
  from distribution_without_output [OF assms True, of log_file]
  show ?thesis by (auto simp: success_logs_def)
next
  case False
  then have dw: "platform E = ''darwin''"
    and nd: "\<not> (is_dir (fs s) [''dist''] \<and> \<not> is_dir (fs s) debug_script)"
    by auto
  from create_debug_script_fails [OF dw nd] obtain c where
    "create_debug_script E s = (Inl (OSError c), s\<lparr>trace := trace s @ [WriteFile debug_script]\<rparr>)"
    by blast
  then show ?thesis
    by (simp add: distribution_def seq_def bind_def)
qed

text \<open>
  Claim C8, as amended. When the output path that the platform expects is absent after
  the packaging step, the run requests no archive: its trace holds no call of
  \<open>make_archive\<close> and no run of \<open>tar\<close>. On Windows and Linux, and on macOS when the
  debug script can be written (\<open>dist\<close> is a directory and \<open>dist/debug_launch.command\<close>
  is not one), the script tests the expected path and goes to the closing log records,
  and the process ends with status 0.
\<close>

theorem no_output_no_archive:
  assumes "preparation E (initial project hm) = (Inr log_file, s1)"
    and "packaging E s1 = (Inr (), s2)"
    and "lookup (fs s2) (expected_output E) = None"
  shows "filter is_archive_attempt (trace (snd (main E project hm))) = []
     \<and> ((platform E = ''darwin'' \<longrightarrow> is_dir (fs s2) [''dist''] \<and> \<not> is_dir (fs s2) debug_script)
        \<longrightarrow> exit_status (main E project hm) = 0
          \<and> trace (snd (main E project hm)) = trace s2 @
              (if platform E = ''darwin''
               then [WriteFile debug_script, Chmod debug_script 493,
                     Log Info ''Created debug launch script at dist/debug_launch.command'']
               else [])
              @ [Stat (expected_output E)] @ success_logs E log_file
          \<and> (platform E \<noteq> ''darwin'' \<longrightarrow> fs (snd (main E project hm)) = fs s2))"
proof (intro conjI impI)
  have "keeps is_archive_attempt (preparation E)"
    by (rule keeps_preparation) simp_all
  then have a1: "filter is_archive_attempt (trace s1) = []"
    using keepsD [of is_archive_attempt "preparation E" "initial project hm"] assms(1)
    by (simp add: initial_def)
  have "keeps is_archive_attempt (packaging E)"
    by (rule keeps_packaging) (simp_all add: npm_cmd_not_tar pyinstaller_argv_def)
  then have a2: "filter is_archive_attempt (trace s2) = []"
    using keepsD [of is_archive_attempt "packaging E" s1] assms(2) a1 by simp
  obtain r s' where d: "distribution E log_file s2 = (r, s')"
    by (cases "distribution E log_file s2")
  have a3: "filter is_archive_attempt (trace s') = []"
    using distribution_no_attempt [OF assms(3), of log_file] d a2 by simp
  obtain r' s'' where m: "main E project hm = (r', s'')" by (cases "main E project hm")
  then have te: "try_except (distribution E log_file) is_Exception
             (\<lambda>e. seq (logging Error (''Error during build: '' @ exc_text e)) (raise (SystemExit 1))) s2 = (r', s'')"
    by (simp add: main_after_packaging [OF assms(1,2)])
  from exit_handler [OF te d, of is_archive_attempt] a3
  have "filter is_archive_attempt (trace s'') = []"
    by (auto simp: filter_empty_conv)
  then show "filter is_archive_attempt (trace (snd (main E project hm))) = []"
    by (simp add: m)
next
  assume h: "platform E = ''darwin'' \<longrightarrow> is_dir (fs s2) [''dist''] \<and> \<not> is_dir (fs s2) debug_script"
  obtain s' where d: "distribution E log_file s2 = (Inr (), s')"
    and t: "trace s' = trace s2 @
          (if platform E = ''darwin''
           then [WriteFile debug_script, Chmod debug_script 493,
                 Log Info ''Created debug launch script at dist/debug_launch.command'']
           else [])
          @ [Stat (expected_output E)] @ success_logs E log_file"
    and f: "platform E \<noteq> ''darwin'' \<longrightarrow> fs s' = fs s2"
    using distribution_without_output [OF assms(3) h, of log_file] by blast
  have m: "main E project hm = (Inr (), s')"
    by (rule main_of_distribution [OF assms(1,2) d])
  show "exit_status (main E project hm) = 0"
    by (simp add: m exit_status_def)
  show "trace (snd (main E project hm)) = trace s2 @
              (if platform E = ''darwin''
               then [WriteFile debug_script, Chmod debug_script 493,
                     Log Info ''Created debug launch script at dist/debug_launch.command'']
               else [])
              @ [Stat (expected_output E)] @ success_logs E log_file"
    using t by (simp add: m)
  show "fs (snd (main E project hm)) = fs s2" if "platform E \<noteq> ''darwin''"
    using f that by (simp add: m)
qed

theorem no_output_no_archive_witness:
  "exit_status (main macos_other web_project (Dir [])) = 0
 \<and> exit_status (main linux_env web_project (Dir [])) = 0
 \<and> filter is_archive_attempt (trace (snd (main macos_other web_project (Dir [])))) = []
 \<and> Log Info ''Build completed successfully!'' \<in> set (trace (snd (main macos_other web_project (Dir []))))"
proof -
  let ?E = "macos_other"
  let ?p = "preparation ?E (initial web_project (Dir []))"
  let ?s2 = "snd (packaging ?E (snd ?p))"
  let ?q = "preparation linux_env (initial web_project (Dir []))"
  let ?t2 = "snd (packaging linux_env (snd ?q))"
  have 1: "?p = (Inr ''/Users/u/Library/Logs/TAK-Manager/build-20240101-120000.log'', snd ?p)"
    by code_simp
  have 2: "packaging ?E (snd ?p) = (Inr (), ?s2)" by code_simp
  have 3: "lookup (fs ?s2) (expected_output ?E) = None" by code_simp
  have 4: "platform ?E = ''darwin'' \<longrightarrow> is_dir (fs ?s2) [''dist''] \<and> \<not> is_dir (fs ?s2) debug_script"
    by code_simp
  have 5: "?q = (Inr ''logs/build-20240101-120000.log'', snd ?q)" by code_simp
  have 6: "packaging linux_env (snd ?q) = (Inr (), ?t2)" by code_simp
  have 7: "lookup (fs ?t2) (expected_output linux_env) = None" by code_simp
  have 8: "platform linux_env = ''darwin'' \<longrightarrow> is_dir (fs ?t2) [''dist''] \<and> \<not> is_dir (fs ?t2) debug_script"
    by code_simp
  have 10: "platform ?E = ''darwin''" by code_simp
  note mac = no_output_no_archive [OF 1 2 3]
  note lin = no_output_no_archive [OF 5 6 7]
  have a: "filter is_archive_attempt (trace (snd (main ?E web_project (Dir [])))) = []"
    by (rule mac [THEN conjunct1])
  have b: "exit_status (main ?E web_project (Dir [])) = 0"
    by (rule mac [THEN conjunct2, THEN mp, OF 4, THEN conjunct1])
  have c: "exit_status (main linux_env web_project (Dir [])) = 0"
    by (rule lin [THEN conjunct2, THEN mp, OF 8, THEN conjunct1])
  have d: "Log Info ''Build completed successfully!''
             \<in> set (trace (snd (main ?E web_project (Dir []))))"
    using mac [THEN conjunct2, THEN mp, OF 4, THEN conjunct2, THEN conjunct1]
    by (simp add: success_logs_def)
  show ?thesis using a b c d by blast
qed

text \<open>
  Claim C8 as stated fails on macOS when the packaging step leaves no \<open>dist\<close> directory
  at all: the expected path is absent, yet \<open>create_debug_script\<close> cannot open its file, the
  exception reaches the handler of \<open>build_app\<close> and the process ends with status 1
  without the success record.
\<close>

theorem no_output_macos_counterexample:
  "fst (preparation macos_idle (initial web_project (Dir []))) =
     Inr ''/Users/u/Library/Logs/TAK-Manager/build-20240101-120000.log''
 \<and> fst (packaging macos_idle (snd (preparation macos_idle (initial web_project (Dir []))))) = Inr ()
 \<and> lookup (fs (snd (packaging macos_idle (snd (preparation macos_idle (initial web_project (Dir [])))))))
      (expected_output macos_idle) = None
 \<and> exit_status (main macos_idle web_project (Dir [])) = 1
 \<and> Log Info ''Build completed successfully!''
      \<notin> set (trace (snd (main macos_idle web_project (Dir []))))"
  by code_simp

lemma mkdir_resources:
  assumes "is_dir (fs s) [''resources''] \<or> (lookup (fs s) [''resources''] = None \<and> is_dir (fs s) [])"
  shows "mkdir_exist_ok [''resources''] s =
     (Inr (),
      s\<lparr>fs := (if lookup (fs s) [''resources''] = None
                then store [''resources''] (Dir []) (fs s) else fs s),
        trace := trace s @ [Mkdir [''resources'']]\<rparr>)"
  using assms
  by (auto simp: mkdir_exist_ok_def emit_def is_dir_def split: option.splits node.splits)

lemma lookup_below_new_dir:
  "lookup t [d] = None \<Longrightarrow> lookup (store [d] (Dir []) t) [d, x] = None"
  by (cases t) (auto simp: map_of_put_child split: option.splits)

lemma lookup_below_missing: "lookup t [d] = None \<Longrightarrow> lookup t [d, x] = None"
  by (cases t) (auto split: option.splits)

text \<open>
  Claim C3, as amended. On each of the three platforms, when \<open>resources\<close> is a directory
  or can be created (it is absent from the working directory), \<open>ensure_resources\<close>
  returns normally after one \<open>mkdir\<close> and one existence test, the test of the icon of
  the platform; it adds the warning exactly when that icon is absent, changes nothing in
  the tree but the new directory, and whatever follows it in the script runs next.
\<close>

theorem icon_check:
  assumes "(platform E, icon) \<in>
             set [(''darwin'', ''icon.icns''), (''win32'', ''icon.ico''), (''linux'', ''icon.png'')]"
    and "is_dir (fs s) [''resources''] \<or> (lookup (fs s) [''resources''] = None \<and> is_dir (fs s) [])"
  shows "fst (ensure_resources E s) = Inr ()
     \<and> trace (snd (ensure_resources E s)) =
         trace s @ [Mkdir [''resources''], Stat [''resources'', icon]] @
         (if lookup (fs s) [''resources'', icon] = None
          then [Log Warning (icon @ '' not found in resources directory'')] else [])
     \<and> fs (snd (ensure_resources E s)) =
         (if lookup (fs s) [''resources''] = None
          then store [''resources''] (Dir []) (fs s) else fs s)
     \<and> home (snd (ensure_resources E s)) = home s
     \<and> (\<forall>k. seq (ensure_resources E) k s = k (snd (ensure_resources E s)))"
proof -
  have tab: "map_of required_files (platform E) = Some icon" and ne: "icon \<noteq> []"
    using assms(1) by (auto simp: required_files_def)
  define s1 where "s1 = s\<lparr>fs := (if lookup (fs s) [''resources''] = None
                then store [''resources''] (Dir []) (fs s) else fs s),
        trace := trace s @ [Mkdir [''resources'']]\<rparr>"
  have mk: "mkdir_exist_ok [''resources''] s = (Inr (), s1)"
    unfolding s1_def by (rule mkdir_resources [OF assms(2)])
  have lk: "lookup (fs s1) [''resources'', icon] = lookup (fs s) [''resources'', icon]"
    by (simp add: s1_def lookup_below_new_dir lookup_below_missing)
  define s2 where "s2 = s1\<lparr>trace := trace s1 @ [Stat [''resources'', icon]] @
         (if lookup (fs s) [''resources'', icon] = None
          then [Log Warning (icon @ '' not found in resources directory'')] else [])\<rparr>"
  have r: "ensure_resources E s = (Inr (), s2)"
    using tab ne mk lk
    by (simp add: ensure_resources_def Let_def seq_def bind_def ret_def path_exists_def
          logging_def emit_def s2_def)
  show ?thesis
    by (simp add: r seq_def bind_def s2_def s1_def)
qed

theorem icon_check_witness:
  "fst (ensure_resources linux_env (initial web_project (Dir []))) = Inr ()
 \<and> trace (snd (ensure_resources linux_env (initial web_project (Dir [])))) =
     [Mkdir [''resources''], Stat [''resources'', ''icon.png''],
      Log Warning ''icon.png not found in resources directory'']"
proof -
  have 1: "(platform linux_env, ''icon.png'') \<in>
             set [(''darwin'', ''icon.icns''), (''win32'', ''icon.ico''), (''linux'', ''icon.png'')]"
    by code_simp
  have 2: "is_dir (fs (initial web_project (Dir []))) [''resources'']
         \<or> (lookup (fs (initial web_project (Dir []))) [''resources''] = None
            \<and> is_dir (fs (initial web_project (Dir []))) [])"
    by code_simp
  have 3: "lookup (fs (initial web_project (Dir []))) [''resources'', ''icon.png''] = None"
    by code_simp
  have 4: "trace (initial web_project (Dir [])) = []" by code_simp
  note r = icon_check [OF 1 2]
  show ?thesis
    using r [THEN conjunct1] r [THEN conjunct2, THEN conjunct1] 3 4 by simp
qed

text \<open>
  Claim C3 as stated fails when \<open>resources\<close> is a regular file: the icon is absent,
  \<open>mkdir(exist_ok=True)\<close> raises \<open>FileExistsError\<close>, and no icon is tested.
\<close>

theorem icon_check_counterexample:
  "lookup (fs (initial resources_file_project (Dir []))) [''resources'', ''icon.png''] = None
 \<and> fst (ensure_resources linux_env (initial resources_file_project (Dir []))) =
     Inl (OSError ''FileExistsError'')
 \<and> filter is_Stat (trace (snd (ensure_resources linux_env (initial resources_file_project (Dir []))))) = []
 \<and> exit_status (main linux_env resources_file_project (Dir [])) = 1"
  by code_simp

lemma map_of_del_child: "map_of (del_child x cs) y = (if y = x then None else map_of cs y)"
  by (induction cs) (auto simp: del_child_def)

lemma lookup_remove_top:
  "lookup (remove [y] t) [x] = (if x = y then None else lookup t [x])"
  by (cases t) (auto simp: map_of_del_child split: option.splits)

lemma walk_free:
  "pycache_free n \<Longrightarrow> pycache_walk E p n = (None, n, [])"
  "pycache_free_list cs \<Longrightarrow> pycache_walk_list E p cs = (None, cs, [])"
  by (induction E p n and E p cs rule: pycache_walk_pycache_walk_list.induct) auto

lemma walk_names:
  "pycache_walk_list E p cs = (r, cs', ev) \<Longrightarrow> map fst cs' = map fst cs"
proof (induction cs arbitrary: r cs' ev)
  case Nil
  then show ?case by simp
next
  case (Cons a cs)
  obtain x n where a: "a = (x, n)" by (cases a)
  show ?case
  proof (cases "pycache_walk E (p @ [x]) n")
    case (fields r1 n1 ev1)
    show ?thesis
    proof (cases r1)
      case None
      with Cons a fields show ?thesis by (auto split: prod.splits)
    next
      case (Some e)
      with Cons a fields show ?thesis by auto
    qed
  qed
qed

lemma map_of_None_names: "map_of cs x = None \<longleftrightarrow> x \<notin> set (map fst cs)"
  by (simp add: map_of_eq_None_iff)

lemma walk_result_free:
  "pycache_walk E p n = (None, n', ev) \<Longrightarrow> pycache_free n'"
  "pycache_walk_list E p cs = (None, cs', ev') \<Longrightarrow> pycache_free_list cs'"
proof (induction E p n and E p cs arbitrary: n' ev and cs' ev'
       rule: pycache_walk_pycache_walk_list.induct)
  case (1 E p c m)
  then show ?case by auto
next
  case (2 E p cs)
  show ?case
  proof (cases "map_of cs ''__pycache__''")
    case None
    then obtain cs1 where w: "pycache_walk_list E p cs = (None, cs1, ev)" and n': "n' = Dir cs1"
      using 2(3) by (auto split: prod.splits)
    have "map_of cs1 ''__pycache__'' = None"
      using walk_names [OF w] None by (simp add: map_of_None_names)
    with 2(1) [OF None w] n' show ?thesis by simp
  next
    case (Some k)
    show ?thesis
    proof (cases k)
      case (File c m)
      with Some 2(3) show ?thesis by simp
    next
      case (Dir ds)
      with Some obtain cs1 ev1 where
        w: "pycache_walk_list E p (del_child ''__pycache__'' cs) = (None, cs1, ev1)"
        and n': "n' = Dir cs1"
        using 2(3) by (auto split: prod.splits)
      have "map_of cs1 ''__pycache__'' = None"
        using walk_names [OF w] map_of_del_child [of "''__pycache__''" cs "''__pycache__''"]
        by (simp add: map_of_None_names)
      with 2(2) [OF Some Dir w] n' show ?thesis by simp
    qed
  qed
next
  case (3 E p)
  then show ?case by auto
next
  case (4 E p x n cs)
  from 4(3) obtain n1 ev1 cs1 ev2 where
    a: "pycache_walk E (p @ [x]) n = (None, n1, ev1)"
    and b: "pycache_walk_list E p cs = (None, cs1, ev2)"
    and c: "cs' = (x, n1) # cs1"
    by (auto split: prod.splits option.splits)
  from 4(1) [OF a] 4(2) [OF a [symmetric] refl refl b] c show ?case
    by simp
qed

lemma seq_Inr: "m s = (Inr x, s') \<Longrightarrow> seq m k s = k s'"
  by (simp add: seq_def bind_def)

lemma seq_Inl: "m s = (Inl e, s') \<Longrightarrow> seq m k s = (Inl e, s')"
  by (simp add: seq_def bind_def)

lemma for_each_skip:
  assumes "\<And>x s. x \<in> set xs \<Longrightarrow> body x s = (Inr (), s)"
  shows "for_each body xs s = (Inr (), s)"
  using assms by (induction xs arbitrary: s) simp_all

lemma clean_build_cleaned:
  assumes "cleaned (fs s)"
  shows "clean_build E s = (Inr (), s\<lparr>trace := trace s @ clean_queries\<rparr>)"
proof -
  from assms have a: "lookup (fs s) [''build''] = None" "lookup (fs s) [''dist''] = None"
    "lookup (fs s) [''__pycache__''] = None"
    and sp: "\<forall>x \<in> set (spec_files (fs s)). x = ''tak-manager.spec''"
    and fr: "pycache_free (fs s)"
    by (simp_all add: cleaned_def)
  define s1 where "s1 = s\<lparr>trace := trace s @ [Stat [''build''], Stat [''dist''], Stat [''__pycache__'']]\<rparr>"
  have l1: "clean_dirs s = (Inr (), s1)"
    using a by (simp add: clean_dirs_def clean_dir_def bind_def path_exists_def ret_def emit_def s1_def)
  define s2 where "s2 = s1\<lparr>trace := trace s1 @ [Glob ''*.spec'']\<rparr>"
  have fs2: "fs s2 = fs s" by (simp add: s2_def s1_def)
  have l2: "remove_specs s1 = (Inr (), s2)"
  proof -
    have "for_each remove_spec (spec_files (fs s)) s2 = (Inr (), s2)"
      using sp by (intro for_each_skip) (auto simp: remove_spec_def ret_def)
    then show ?thesis
      by (simp add: remove_specs_def bind_def glob_spec_def emit_def s2_def s1_def)
  qed
  have l3: "clean_pycache E s2 = (Inr (), s2\<lparr>trace := trace s2 @ [Glob ''**/__pycache__'']\<rparr>)"
    using walk_free(1) [OF fr, of E "[]"] by (simp add: clean_pycache_def fs2)
  have "clean_build E s = seq remove_specs (clean_pycache E) s1"
    unfolding clean_build_def by (rule seq_Inr [of clean_dirs s "()" s1, OF l1])
  also have "\<dots> = clean_pycache E s2"
    by (rule seq_Inr [of remove_specs s1 "()" s2, OF l2])
  also have "\<dots> = (Inr (), s2\<lparr>trace := trace s2 @ [Glob ''**/__pycache__'']\<rparr>)"
    by (rule l3)
  also have "\<dots> = (Inr (), s\<lparr>trace := trace s @ clean_queries\<rparr>)"
    by (simp add: s2_def s1_def clean_queries_def)
  finally show ?thesis .
qed

lemma seq_InrD:
  assumes "seq m k s = (Inr y, s')"
  shows "\<exists>x s1. m s = (Inr x, s1) \<and> k s1 = (Inr y, s')"
proof (cases "m s")
  case (Pair r s1)
  with assms show ?thesis by (cases r) (auto simp: seq_def bind_def)
qed

lemma spec_files_iff:
  "x \<in> set (spec_files t) \<longleftrightarrow> endswith x ''.spec'' \<and> lookup t [x] \<noteq> None"
proof (cases t)
  case (File c m)
  then show ?thesis by (simp add: spec_files_def)
next
  case (Dir cs)
  have "x \<in> fst ` set cs \<longleftrightarrow> map_of cs x \<noteq> None"
    by (simp add: map_of_eq_None_iff)
  with Dir show ?thesis by (auto simp: spec_files_def split: option.splits)
qed

lemma clean_dir_result:
  assumes "clean_dir d s = (Inr (), s1)"
  shows "fs s1 = (if lookup (fs s) [d] = None then fs s else remove [d] (fs s))"
proof (cases "lookup (fs s) [d]")
  case None
  with assms show ?thesis
    by (auto simp: clean_dir_def bind_def path_exists_def ret_def emit_def)
next
  case (Some n)
  with assms show ?thesis
    by (cases n)
       (auto simp: clean_dir_def bind_def seq_def path_exists_def logging_def rmtree_def emit_def)
qed

lemma clean_dir_lookup:
  assumes "clean_dir d s = (Inr (), s1)"
  shows "lookup (fs s1) [x] = (if x = d then None else lookup (fs s) [x])"
  using clean_dir_result [OF assms] by (auto simp: lookup_remove_top)

lemma clean_dirs_loop:
  assumes "for_each clean_dir ds s = (Inr (), s')"
  shows "\<forall>x. x \<in> set ds \<or> lookup (fs s) [x] = None \<longrightarrow> lookup (fs s') [x] = None"
  using assms
proof (induction ds arbitrary: s)
  case Nil
  then show ?case by simp
next
  case (Cons a ds)
  obtain r s1 where b: "clean_dir a s = (r, s1)" by (cases "clean_dir a s")
  with Cons.prems have r: "r = Inr ()" and rest: "for_each clean_dir ds s1 = (Inr (), s')"
    by (cases r; simp)+
  note f = clean_dir_lookup [OF b [unfolded r]]
  note ih = Cons.IH [OF rest]
  show ?case
  proof (intro allI impI)
    fix x
    assume "x \<in> set (a # ds) \<or> lookup (fs s) [x] = None"
    then have "x \<in> set ds \<or> lookup (fs s1) [x] = None"
      using f [of x] by auto
    with ih show "lookup (fs s') [x] = None" by blast
  qed
qed

lemma clean_dirs_result:
  assumes "clean_dirs s = (Inr (), s1)"
  shows "lookup (fs s1) [''build''] = None \<and> lookup (fs s1) [''dist''] = None
       \<and> lookup (fs s1) [''__pycache__''] = None"
  using clean_dirs_loop [OF assms [unfolded clean_dirs_def]] by simp

lemma remove_spec_result:
  assumes "remove_spec x s = (Inr (), s1)"
  shows "fs s1 = (if x \<noteq> ''tak-manager.spec'' then remove [x] (fs s) else fs s)"
  using assms
  by (auto simp: remove_spec_def seq_def bind_def logging_def unlink_def ret_def emit_def
      split: if_splits option.splits node.splits)

lemma remove_specs_loop:
  assumes "for_each remove_spec xs s = (Inr (), s')"
  shows "(\<forall>x. lookup (fs s) [x] = None \<longrightarrow> lookup (fs s') [x] = None)
       \<and> (\<forall>x \<in> set xs. x \<noteq> ''tak-manager.spec'' \<longrightarrow> lookup (fs s') [x] = None)"
  using assms
proof (induction xs arbitrary: s)
  case Nil
  then show ?case by simp
next
  case (Cons a xs)
  obtain r s1 where b: "remove_spec a s = (r, s1)" by (cases "remove_spec a s")
  with Cons.prems have r: "r = Inr ()" and rest: "for_each remove_spec xs s1 = (Inr (), s')"
    by (cases r; simp)+
  note f = remove_spec_result [OF b [unfolded r]]
  note ih = Cons.IH [OF rest]
  have keep: "lookup (fs s1) [x] = None" if "lookup (fs s) [x] = None" for x
    using that f by (simp add: lookup_remove_top)
  have gone: "lookup (fs s1) [a] = None" if "a \<noteq> ''tak-manager.spec''"
    using that f by (simp add: lookup_remove_top)
  show ?case using ih keep gone by auto
qed

lemma walk_top_absent:
  assumes "pycache_walk E p t = (r, t', ev)" and "lookup t [x] = None"
  shows "lookup t' [x] = None"
proof (cases t)
  case (File c m)
  with assms show ?thesis by simp
next
  case (Dir cs)
  from assms(2) Dir have "map_of cs x = None"
    by (simp split: option.splits)
  then have x: "x \<notin> set (map fst cs)"
    by (simp add: map_of_eq_None_iff)
  have sub: "set (map fst (del_child ''__pycache__'' cs)) \<subseteq> set (map fst cs)"
    by (auto simp: del_child_def)
  show ?thesis
  proof (cases "map_of cs ''__pycache__''")
    case None
    with assms(1) Dir obtain cs1 where w: "pycache_walk_list E p cs = (r, cs1, ev)"
      and t': "t' = Dir cs1"
      by (auto split: prod.splits)
    from walk_names [OF w] x have "x \<notin> set (map fst cs1)" by simp
    then have "map_of cs1 x = None" by (simp add: map_of_None_names)
    with t' show ?thesis by simp
  next
    case (Some k)
    show ?thesis
    proof (cases k)
      case (File c m)
      with Some assms Dir show ?thesis by auto
    next
      case d: (Dir ds)
      with Some assms(1) Dir obtain cs1 ev1 where
        w: "pycache_walk_list E p (del_child ''__pycache__'' cs) = (r, cs1, ev1)"
        and t': "t' = Dir cs1"
        by (auto split: prod.splits)
      from walk_names [OF w] x sub have "x \<notin> set (map fst cs1)" by auto
      then have "map_of cs1 x = None" by (simp add: map_of_None_names)
      with t' show ?thesis by simp
    qed
  qed
qed

lemma clean_pycache_result:
  assumes "clean_pycache E s = (Inr (), s')"
  shows "\<exists>ev. pycache_walk E [] (fs s) = (None, fs s', ev)"
proof (cases "pycache_walk E [] (fs s)")
  case (fields r t' ev)
  with assms show ?thesis
    by (cases r) (auto simp: clean_pycache_def)
qed

lemma clean_build_leaves_cleaned:
  assumes "clean_build E s = (Inr (), s')"
  shows "cleaned (fs s')"
proof -
  from seq_InrD [OF assms [unfolded clean_build_def]] obtain u1 s1 where
    c1: "clean_dirs s = (Inr u1, s1)"
    and rest: "seq remove_specs (clean_pycache E) s1 = (Inr (), s')"
    by blast
  from seq_InrD [OF rest] obtain u2 s2 where
    c2: "remove_specs s1 = (Inr u2, s2)" and c3: "clean_pycache E s2 = (Inr (), s')"
    by blast
  have c1': "clean_dirs s = (Inr (), s1)" using c1 by simp
  note a1 = clean_dirs_result [OF c1']
  have loop: "for_each remove_spec (spec_files (fs s1)) (emit (Glob ''*.spec'') s1) = (Inr (), s2)"
    using c2 by (simp add: remove_specs_def bind_def glob_spec_def)
  have fs_emit: "fs (emit (Glob ''*.spec'') s1) = fs s1" by (simp add: emit_def)
  note a2 = remove_specs_loop [OF loop, unfolded fs_emit]
  have keep2: "lookup (fs s2) [x] = None" if "lookup (fs s1) [x] = None" for x
    using a2 [THEN conjunct1, rule_format, OF that] .
  have gone2: "lookup (fs s2) [x] = None"
    if "x \<in> set (spec_files (fs s1))" and "x \<noteq> ''tak-manager.spec''" for x
    using a2 [THEN conjunct2, rule_format, OF that] .
  from clean_pycache_result [OF c3] obtain ev where
    w: "pycache_walk E [] (fs s2) = (None, fs s', ev)" by blast
  have free: "pycache_free (fs s')"
    by (rule walk_result_free(1) [OF w])
  have keep3: "lookup (fs s') [x] = None" if "lookup (fs s2) [x] = None" for x
    by (rule walk_top_absent [OF w that])
  have spec: "x = ''tak-manager.spec''" if "x \<in> set (spec_files (fs s'))" for x
  proof (rule ccontr)
    assume ne: "x \<noteq> ''tak-manager.spec''"
    from that have e: "endswith x ''.spec''" and p: "lookup (fs s') [x] \<noteq> None"
      by (simp_all add: spec_files_iff)
    have p2: "lookup (fs s2) [x] \<noteq> None"
    proof
      assume "lookup (fs s2) [x] = None"
      then have "lookup (fs s') [x] = None" by (rule keep3)
      with p show False by simp
    qed
    have "lookup (fs s1) [x] \<noteq> None"
    proof
      assume "lookup (fs s1) [x] = None"
      then have "lookup (fs s2) [x] = None" by (rule keep2)
      with p2 show False by simp
    qed
    with e have "x \<in> set (spec_files (fs s1))" by (simp add: spec_files_iff)
    from gone2 [OF this ne] p2 show False by simp
  qed
  have b: "lookup (fs s') [''build''] = None"
    by (intro keep3 keep2) (simp add: a1)
  have d: "lookup (fs s') [''dist''] = None"
    by (intro keep3 keep2) (simp add: a1)
  have c: "lookup (fs s') [''__pycache__''] = None"
    by (intro keep3 keep2) (simp add: a1)
  show ?thesis
    unfolding cleaned_def using b d c spec free by simp
qed

text \<open>
  Claim C4, as amended. After a run of \<open>clean_build\<close> that returned without raising, a
  second run returns without raising as well, leaves the project tree and the home tree as
  they are, and adds to the trace only its three existence tests and its two pattern
  searches: it calls neither \<open>rmtree\<close> nor \<open>unlink\<close>.
\<close>

theorem clean_build_idempotent:
  assumes "clean_build E s = (Inr (), s')"
  shows "fst (clean_build E s') = Inr ()
     \<and> fs (snd (clean_build E s')) = fs s'
     \<and> home (snd (clean_build E s')) = home s'
     \<and> trace (snd (clean_build E s')) =
         trace s' @ [Stat [''build''], Stat [''dist''], Stat [''__pycache__''],
                     Glob ''*.spec'', Glob ''**/__pycache__'']"
proof -
  have "cleaned (fs s')" by (rule clean_build_leaves_cleaned [OF assms])
  then have "clean_build E s' = (Inr (), s'\<lparr>trace := trace s' @ clean_queries\<rparr>)"
    by (rule clean_build_cleaned)
  then show ?thesis by (simp add: clean_queries_def)
qed

theorem clean_build_idempotent_witness:
  "fst (clean_build linux_env (initial stale_project (Dir []))) = Inr ()
 \<and> fs (snd (clean_build linux_env (initial stale_project (Dir [])))) =
     Dir [(''web'', Dir [(''package.json'', File (Text ''{}'') 420)]),
          (''tak-manager.spec'', File (Text ''b'') 420),
          (''backend'', Dir [(''routes'', Dir [])])]
 \<and> fst (clean_build linux_env (snd (clean_build linux_env (initial stale_project (Dir []))))) = Inr ()
 \<and> fs (snd (clean_build linux_env (snd (clean_build linux_env (initial stale_project (Dir [])))))) =
     fs (snd (clean_build linux_env (initial stale_project (Dir []))))"
proof -
  let ?s = "initial stale_project (Dir [])"
  let ?s' = "snd (clean_build linux_env ?s)"
  have 1: "clean_build linux_env ?s = (Inr (), ?s')" by code_simp
  have 2: "fs ?s' = Dir [(''web'', Dir [(''package.json'', File (Text ''{}'') 420)]),
          (''tak-manager.spec'', File (Text ''b'') 420),
          (''backend'', Dir [(''routes'', Dir [])])]" by code_simp
  note r = clean_build_idempotent [OF 1]
  have 3: "fst (clean_build linux_env ?s) = Inr ()" by code_simp
  show ?thesis
    using 3 2 r [THEN conjunct1] r [THEN conjunct2, THEN conjunct1] by blast
qed

text \<open>
  Claim C4 as stated fails where \<open>build\<close> is a regular file: \<open>os.path.exists\<close> is true,
  \<open>shutil.rmtree\<close> raises \<open>NotADirectoryError\<close>, the tree stays as it is, and a second
  run raises again.
\<close>

theorem clean_build_idempotent_counterexample:
  "fst (clean_build linux_env (initial build_file_project (Dir []))) =
     Inl (OSError ''NotADirectoryError'')
 \<and> fs (snd (clean_build linux_env (initial build_file_project (Dir [])))) = build_file_project
 \<and> fst (clean_build linux_env (snd (clean_build linux_env (initial build_file_project (Dir []))))) =
     Inl (OSError ''NotADirectoryError'')"
  by code_simp

lemma keeps_for_each_mem:
  "(\<And>x. x \<in> set xs \<Longrightarrow> keeps P (body x)) \<Longrightarrow> keeps P (for_each body xs)"
  unfolding keeps_def
proof (induction xs)
  case Nil
  show ?case by simp
next
  case (Cons x xs)
  have ih: "\<forall>s. filter P (trace (snd (for_each body xs s))) = filter P (trace s)"
    by (rule Cons.IH) (simp add: Cons.prems)
  show ?case
  proof
    fix s
    obtain r s' where b: "body x s = (r, s')" by (cases "body x s")
    have "filter P (trace (snd (body x s))) = filter P (trace s)"
      using Cons.prems [of x] by simp
    then have "filter P (trace s') = filter P (trace s)" using b by simp
    then show "filter P (trace (snd (for_each body (x # xs) s))) = filter P (trace s)"
      using b ih by (cases r) auto
  qed
qed

lemma walk_events_shape:
  "pycache_walk E p n = (r, n', ev) \<Longrightarrow>
     \<forall>e \<in> set ev. (\<exists>m. e = Log Info m) \<or> (\<exists>q. e = Rmtree (q @ [''__pycache__'']))"
  "pycache_walk_list E p cs = (r', cs', ev') \<Longrightarrow>
     \<forall>e \<in> set ev'. (\<exists>m. e = Log Info m) \<or> (\<exists>q. e = Rmtree (q @ [''__pycache__'']))"
proof (induction E p n and E p cs arbitrary: r n' ev and r' cs' ev'
       rule: pycache_walk_pycache_walk_list.induct)
  case (1 E p c m)
  then show ?case by simp
next
  case (2 E p cs)
  show ?case
  proof (cases "map_of cs ''__pycache__''")
    case None
    with 2(1) 2(3) show ?thesis by (auto split: prod.splits)
  next
    case (Some k)
    show ?thesis
    proof (cases k)
      case (File c m)
      with Some 2(3) show ?thesis by (auto simp: pycache_body_def)
    next
      case (Dir ds)
      with Some 2(3) obtain cs1 ev1 where
        w: "pycache_walk_list E p (del_child ''__pycache__'' cs) = (r, cs1, ev1)"
        and ev: "ev = pycache_body E (p @ [''__pycache__'']) @ ev1"
        by (auto split: prod.splits)
      from 2(2) [OF Some Dir w] ev show ?thesis
        by (auto simp: pycache_body_def)
    qed
  qed
next
  case (3 E p)
  then show ?case by simp
next
  case (4 E p x n cs)
  show ?case
  proof (cases "pycache_walk E (p @ [x]) n")
    case (fields r1 n1 ev1)
    note h1 = 4(1) [OF fields]
    show ?thesis
    proof (cases r1)
      case None
      with fields 4(3) obtain cs2 ev2 where
        w: "pycache_walk_list E p cs = (r', cs2, ev2)" and ev: "ev' = ev1 @ ev2"
        by (auto split: prod.splits)
      from 4(2) [OF fields [symmetric] None refl w] h1 ev show ?thesis by auto
    next
      case (Some e)
      with fields 4(3) have "ev' = ev1" by simp
      with h1 show ?thesis by simp
    qed
  qed
qed

lemma keeps_clean_pycache_canonical: "keeps deletes_canonical (clean_pycache E)"
  unfolding keeps_def
proof
  fix s :: state
  obtain r t ev where w: "pycache_walk E [] (fs s) = (r, t, ev)"
    by (cases "pycache_walk E [] (fs s)") auto
  have "filter deletes_canonical ev = []"
    using walk_events_shape(1) [OF w] by (auto simp: filter_empty_conv)
  with w show "filter deletes_canonical (trace (snd (clean_pycache E s))) =
               filter deletes_canonical (trace s)"
    by (simp add: clean_pycache_def)
qed

lemma keeps_clean_build_canonical: "keeps deletes_canonical (clean_build E)"
  unfolding clean_build_def clean_dirs_def remove_specs_def
proof (intro keeps_seq keeps_bind keeps_for_each_mem keeps_glob_spec keeps_clean_pycache_canonical)
  fix x :: string
  assume "x \<in> set [''build'', ''dist'', ''__pycache__'']"
  then have "x \<noteq> ''tak-manager.spec''" by auto
  then show "keeps deletes_canonical (clean_dir x)"
    unfolding clean_dir_def
    by (intro keeps_bind keeps_seq keeps_if keeps_ret keeps_logging keeps_path_exists keeps_rmtree)
       simp_all
next
  show "\<not> deletes_canonical (Glob ''*.spec'')" by simp
next
  fix xs :: "string list" and x :: string
  show "keeps deletes_canonical (remove_spec x)"
    unfolding remove_spec_def
    by (intro keeps_seq keeps_if keeps_ret keeps_logging keeps_unlink) simp_all
qed

lemma fs_keepsD: "fs_keeps R m \<Longrightarrow> R (fs s) \<Longrightarrow> R (fs (snd (m s)))"
  by (simp add: fs_keeps_def)

lemma fs_keeps_ret: "fs_keeps R (ret x)"
  by (simp add: fs_keeps_def ret_def)

lemma fs_keeps_logging: "fs_keeps R (logging l msg)"
  by (simp add: fs_keeps_def logging_def emit_def)

lemma fs_keeps_path_exists: "fs_keeps R (path_exists p)"
  by (simp add: fs_keeps_def path_exists_def emit_def)

lemma fs_keeps_glob_spec: "fs_keeps R glob_spec"
  by (simp add: fs_keeps_def glob_spec_def emit_def)

lemma fs_keeps_bind: "fs_keeps R m \<Longrightarrow> (\<And>x. fs_keeps R (f x)) \<Longrightarrow> fs_keeps R (bind m f)"
  unfolding fs_keeps_def bind_def
proof (intro allI impI)
  fix s :: state
  assume m: "\<forall>s. R (fs s) \<longrightarrow> R (fs (snd (m s)))"
    and f: "\<And>x. \<forall>s. R (fs s) \<longrightarrow> R (fs (snd (f x s)))"
    and r: "R (fs s)"
  show "R (fs (snd (case m s of (Inl e, s') \<Rightarrow> (Inl e, s') | (Inr x, s') \<Rightarrow> f x s')))"
  proof (cases "m s")
    case (Pair res s')
    then have "R (fs s')" using m r by (metis snd_conv)
    then show ?thesis using Pair f by (cases res) auto
  qed
qed

lemma fs_keeps_seq: "fs_keeps R m \<Longrightarrow> fs_keeps R k \<Longrightarrow> fs_keeps R (seq m k)"
  by (simp add: seq_def fs_keeps_bind)

lemma fs_keeps_if:
  "(c \<Longrightarrow> fs_keeps R m) \<Longrightarrow> (\<not> c \<Longrightarrow> fs_keeps R k) \<Longrightarrow> fs_keeps R (if c then m else k)"
  by simp

lemma fs_keeps_for_each:
  "(\<And>x. x \<in> set xs \<Longrightarrow> fs_keeps R (body x)) \<Longrightarrow> fs_keeps R (for_each body xs)"
  unfolding fs_keeps_def
proof (induction xs)
  case Nil
  show ?case by simp
next
  case (Cons x xs)
  have ih: "\<forall>s. R (fs s) \<longrightarrow> R (fs (snd (for_each body xs s)))"
    by (rule Cons.IH) (simp add: Cons.prems)
  show ?case
  proof (intro allI impI)
    fix s :: state
    assume r: "R (fs s)"
    obtain res s' where b: "body x s = (res, s')" by (cases "body x s")
    have "R (fs (snd (body x s)))" using Cons.prems [of x] r by simp
    then have "R (fs s')" using b by simp
    then show "R (fs (snd (for_each body (x # xs) s)))"
      using b ih by (cases res) auto
  qed
qed

lemma fs_keeps_rmtree: "(\<And>t. R t \<Longrightarrow> R (remove p t)) \<Longrightarrow> fs_keeps R (rmtree p)"
  by (auto simp: fs_keeps_def rmtree_def emit_def split: option.splits node.splits)

lemma fs_keeps_unlink: "(\<And>t. R t \<Longrightarrow> R (remove p t)) \<Longrightarrow> fs_keeps R (unlink p)"
  by (auto simp: fs_keeps_def unlink_def emit_def split: option.splits node.splits)

lemma walk_list_file:
  "pycache_walk_list E p cs = (r, cs', ev) \<Longrightarrow> map_of cs x = Some (File c m)
     \<Longrightarrow> map_of cs' x = Some (File c m)"
proof (induction cs arbitrary: r cs' ev)
  case Nil
  then show ?case by simp
next
  case (Cons a cs)
  obtain y n where a: "a = (y, n)" by (cases a)
  show ?case
  proof (cases "pycache_walk E (p @ [y]) n")
    case (fields r1 n1 ev1)
    show ?thesis
    proof (cases r1)
      case (Some e)
      with Cons.prems a fields show ?thesis by auto
    next
      case None
      with Cons.prems(1) a fields obtain cs2 ev2 where
        w: "pycache_walk_list E p cs = (r, cs2, ev2)" and c: "cs' = (y, n1) # cs2"
        by (auto split: prod.splits)
      show ?thesis
      proof (cases "y = x")
        case True
        with Cons.prems(2) a have "n = File c m" by simp
        with fields have "n1 = File c m" by simp
        with c True show ?thesis by simp
      next
        case False
        with Cons.prems(2) a have "map_of cs x = Some (File c m)" by simp
        from Cons.IH [OF w this] c False show ?thesis by simp
      qed
    qed
  qed
qed

lemma walk_top_file:
  assumes "pycache_walk E p t = (r, t', ev)" and "lookup t [x] = Some (File c m)"
    and "x \<noteq> ''__pycache__''"
  shows "lookup t' [x] = Some (File c m)"
proof (cases t)
  case (File c0 m0)
  with assms show ?thesis by simp
next
  case (Dir cs)
  from assms(2) Dir have x: "map_of cs x = Some (File c m)"
    by (simp split: option.splits)
  show ?thesis
  proof (cases "map_of cs ''__pycache__''")
    case None
    with assms(1) Dir obtain cs1 where w: "pycache_walk_list E p cs = (r, cs1, ev)"
      and t': "t' = Dir cs1"
      by (auto split: prod.splits)
    from walk_list_file [OF w x] t' show ?thesis by simp
  next
    case (Some k)
    show ?thesis
    proof (cases k)
      case (File c1 m1)
      with Some assms Dir show ?thesis by auto
    next
      case d: (Dir ds)
      with Some assms(1) Dir obtain cs1 ev1 where
        w: "pycache_walk_list E p (del_child ''__pycache__'' cs) = (r, cs1, ev1)"
        and t': "t' = Dir cs1"
        by (auto split: prod.splits)
      have "map_of (del_child ''__pycache__'' cs) x = Some (File c m)"
        using x assms(3) by (simp add: map_of_del_child)
      from walk_list_file [OF w this] t' show ?thesis by simp
    qed
  qed
qed

lemma fs_keeps_clean_build_canonical:
  "fs_keeps (\<lambda>t. lookup t [''tak-manager.spec''] = Some (File c m)) (clean_build E)"
  unfolding clean_build_def clean_dirs_def remove_specs_def
proof (intro fs_keeps_seq fs_keeps_bind fs_keeps_for_each fs_keeps_glob_spec)
  fix x :: string
  assume "x \<in> set [''build'', ''dist'', ''__pycache__'']"
  then have "x \<noteq> ''tak-manager.spec''" by auto
  then show "fs_keeps (\<lambda>t. lookup t [''tak-manager.spec''] = Some (File c m)) (clean_dir x)"
    unfolding clean_dir_def
    by (intro fs_keeps_bind fs_keeps_seq fs_keeps_if fs_keeps_ret fs_keeps_logging
          fs_keeps_path_exists fs_keeps_rmtree)
       (simp add: lookup_remove_top)
next
  fix xs :: "string list" and x :: string
  show "fs_keeps (\<lambda>t. lookup t [''tak-manager.spec''] = Some (File c m)) (remove_spec x)"
    unfolding remove_spec_def
    by (intro fs_keeps_seq fs_keeps_if fs_keeps_ret fs_keeps_logging fs_keeps_unlink)
       (simp add: lookup_remove_top)
next
  show "fs_keeps (\<lambda>t. lookup t [''tak-manager.spec''] = Some (File c m)) (clean_pycache E)"
    unfolding fs_keeps_def
  proof (intro allI impI)
    fix s :: state
    assume a: "lookup (fs s) [''tak-manager.spec''] = Some (File c m)"
    obtain r t ev where w: "pycache_walk E [] (fs s) = (r, t, ev)"
      by (cases "pycache_walk E [] (fs s)") auto
    from walk_top_file [OF w a] have "lookup t [''tak-manager.spec''] = Some (File c m)"
      by simp
    with w show "lookup (fs (snd (clean_pycache E s))) [''tak-manager.spec''] = Some (File c m)"
      by (simp add: clean_pycache_def)
  qed
qed

lemma spec_files_remove:
  assumes "\<not> endswith d ''.spec''"
  shows "spec_files (remove [d] t) = spec_files t"
proof (cases t)
  case (File c m)
  then show ?thesis by simp
next
  case (Dir cs)
  have "filter (\<lambda>x. endswith x ''.spec'') (map fst (del_child d cs)) =
        filter (\<lambda>x. endswith x ''.spec'') (map fst cs)"
    using assms by (induction cs) (auto simp: del_child_def)
  with Dir show ?thesis by (simp add: spec_files_def)
qed

lemma clean_dirs_spec_files:
  assumes "for_each clean_dir ds s = (Inr (), s')"
    and "\<forall>d \<in> set ds. \<not> endswith d ''.spec''"
  shows "spec_files (fs s') = spec_files (fs s)"
  using assms
proof (induction ds arbitrary: s)
  case Nil
  then show ?case by simp
next
  case (Cons a ds)
  obtain r s1 where b: "clean_dir a s = (r, s1)" by (cases "clean_dir a s")
  with Cons.prems(1) have r: "r = Inr ()" and rest: "for_each clean_dir ds s1 = (Inr (), s')"
    by (cases r; simp)+
  have "spec_files (fs s1) = spec_files (fs s)"
    using clean_dir_result [OF b [unfolded r]] Cons.prems(2) by (simp add: spec_files_remove)
  moreover have "spec_files (fs s') = spec_files (fs s1)"
    using Cons.IH [OF rest] Cons.prems(2) by simp
  ultimately show ?case by simp
qed

lemma remove_spec_trace:
  assumes "remove_spec x s = (Inr (), s1)"
  shows "filter is_Unlink (trace s1) =
         filter is_Unlink (trace s) @ (if x \<noteq> ''tak-manager.spec'' then [Unlink [x]] else [])"
  using assms
  by (auto simp: remove_spec_def seq_def bind_def logging_def unlink_def ret_def emit_def
      split: if_splits option.splits node.splits)

lemma remove_specs_trace:
  assumes "for_each remove_spec xs s = (Inr (), s')"
  shows "filter is_Unlink (trace s') =
         filter is_Unlink (trace s) @
         map (\<lambda>x. Unlink [x]) (filter (\<lambda>x. x \<noteq> ''tak-manager.spec'') xs)"
  using assms
proof (induction xs arbitrary: s)
  case Nil
  then show ?case by simp
next
  case (Cons a xs)
  obtain r s1 where b: "remove_spec a s = (r, s1)" by (cases "remove_spec a s")
  with Cons.prems have r: "r = Inr ()" and rest: "for_each remove_spec xs s1 = (Inr (), s')"
    by (cases r; simp)+
  from remove_spec_trace [OF b [unfolded r]] Cons.IH [OF rest] show ?case by simp
qed

lemma keeps_clean_dirs:
  assumes "\<And>m. \<not> P (Log Info m)" and "\<And>q. \<not> P (Rmtree q)" and "\<And>q. \<not> P (Stat q)"
  shows "keeps P clean_dirs"
  unfolding clean_dirs_def clean_dir_def
  by (intro keeps_seq keeps_bind keeps_for_each keeps_if keeps_ret keeps_logging
        keeps_path_exists keeps_rmtree assms)

lemma clean_build_unlinks:
  assumes "clean_build E s = (Inr (), s')"
  shows "filter is_Unlink (trace s') =
           filter is_Unlink (trace s) @
           map (\<lambda>x. Unlink [x]) (filter (\<lambda>x. x \<noteq> ''tak-manager.spec'') (spec_files (fs s)))"
    and "\<forall>x \<in> set (spec_files (fs s)). x \<noteq> ''tak-manager.spec'' \<longrightarrow> lookup (fs s') [x] = None"
proof -
  from seq_InrD [OF assms [unfolded clean_build_def]] obtain u1 s1 where
    c1: "clean_dirs s = (Inr u1, s1)"
    and rest: "seq remove_specs (clean_pycache E) s1 = (Inr (), s')"
    by blast
  from seq_InrD [OF rest] obtain u2 s2 where
    c2: "remove_specs s1 = (Inr u2, s2)" and c3: "clean_pycache E s2 = (Inr (), s')"
    by blast
  have c1': "for_each clean_dir [''build'', ''dist'', ''__pycache__''] s = (Inr (), s1)"
    using c1 by (simp add: clean_dirs_def)
  have sf: "spec_files (fs s1) = spec_files (fs s)"
    by (rule clean_dirs_spec_files [OF c1']) (simp add: endswith_def)
  have t1: "filter is_Unlink (trace s1) = filter is_Unlink (trace s)"
    using keepsD [OF keeps_clean_dirs [of is_Unlink], of s] c1 by simp
  have loop: "for_each remove_spec (spec_files (fs s1)) (emit (Glob ''*.spec'') s1) = (Inr (), s2)"
    using c2 by (simp add: remove_specs_def bind_def glob_spec_def)
  have fs_emit: "fs (emit (Glob ''*.spec'') s1) = fs s1" by (simp add: emit_def)
  have t2: "filter is_Unlink (trace s2) =
           filter is_Unlink (trace s1) @
           map (\<lambda>x. Unlink [x]) (filter (\<lambda>x. x \<noteq> ''tak-manager.spec'') (spec_files (fs s1)))"
    using remove_specs_trace [OF loop] by (simp add: emit_def)
  have t3: "filter is_Unlink (trace s') = filter is_Unlink (trace s2)"
    using keepsD [OF keeps_clean_pycache [of is_Unlink E], of s2] c3 by simp
  show "filter is_Unlink (trace s') =
           filter is_Unlink (trace s) @
           map (\<lambda>x. Unlink [x]) (filter (\<lambda>x. x \<noteq> ''tak-manager.spec'') (spec_files (fs s)))"
    by (simp add: t3 t2 t1 sf)
  note a2 = remove_specs_loop [OF loop, unfolded fs_emit]
  from clean_pycache_result [OF c3] obtain ev where
    w: "pycache_walk E [] (fs s2) = (None, fs s', ev)" by blast
  show "\<forall>x \<in> set (spec_files (fs s)). x \<noteq> ''tak-manager.spec'' \<longrightarrow> lookup (fs s') [x] = None"
  proof (intro ballI impI)
    fix x
    assume "x \<in> set (spec_files (fs s))" and ne: "x \<noteq> ''tak-manager.spec''"
    then have "x \<in> set (spec_files (fs s1))" by (simp add: sf)
    from a2 [THEN conjunct2, rule_format, OF this ne]
    have "lookup (fs s2) [x] = None" .
    then show "lookup (fs s') [x] = None" by (rule walk_top_absent [OF w])
  qed
qed

text \<open>
  Claim C7, as amended. In every run of \<open>clean_build\<close>, whether it returns or raises,
  no \<open>unlink\<close> and no \<open>rmtree\<close> is called on \<open>tak-manager.spec\<close>, and a regular file of
  that name is left as it was. In every run that returns without raising, the calls of
  \<open>unlink\<close> are exactly those on the top-level names ending in \<open>.spec\<close> other than
  \<open>tak-manager.spec\<close>, in listing order, and none of these names is left.
\<close>

theorem canonical_spec_kept:
  "filter deletes_canonical (trace (snd (clean_build E s))) = filter deletes_canonical (trace s)
 \<and> (lookup (fs s) [''tak-manager.spec''] = Some (File c m) \<longrightarrow>
      lookup (fs (snd (clean_build E s))) [''tak-manager.spec''] = Some (File c m))
 \<and> (fst (clean_build E s) = Inr () \<longrightarrow>
      filter is_Unlink (trace (snd (clean_build E s))) =
        filter is_Unlink (trace s) @
        map (\<lambda>x. Unlink [x]) (filter (\<lambda>x. x \<noteq> ''tak-manager.spec'') (spec_files (fs s)))
    \<and> (\<forall>x \<in> set (spec_files (fs s)).
          x \<noteq> ''tak-manager.spec'' \<longrightarrow> lookup (fs (snd (clean_build E s))) [x] = None))"
proof (intro conjI impI)
  show "filter deletes_canonical (trace (snd (clean_build E s))) =
        filter deletes_canonical (trace s)"
    by (rule keepsD [OF keeps_clean_build_canonical])
next
  assume "lookup (fs s) [''tak-manager.spec''] = Some (File c m)"
  then show "lookup (fs (snd (clean_build E s))) [''tak-manager.spec''] = Some (File c m)"
    by (rule fs_keepsD [OF fs_keeps_clean_build_canonical])
next
  assume "fst (clean_build E s) = Inr ()"
  then have r: "clean_build E s = (Inr (), snd (clean_build E s))"
    by (metis prod.collapse)
  show "filter is_Unlink (trace (snd (clean_build E s))) =
        filter is_Unlink (trace s) @
        map (\<lambda>x. Unlink [x]) (filter (\<lambda>x. x \<noteq> ''tak-manager.spec'') (spec_files (fs s)))"
    by (rule clean_build_unlinks(1) [OF r])
  show "\<forall>x \<in> set (spec_files (fs s)).
          x \<noteq> ''tak-manager.spec'' \<longrightarrow> lookup (fs (snd (clean_build E s))) [x] = None"
    by (rule clean_build_unlinks(2) [OF r])
qed

theorem canonical_spec_kept_witness:
  "spec_files stale_project = [''old.spec'', ''tak-manager.spec'']
 \<and> fst (clean_build linux_env (initial stale_project (Dir []))) = Inr ()
 \<and> filter is_Unlink (trace (snd (clean_build linux_env (initial stale_project (Dir []))))) =
     [Unlink [''old.spec'']]
 \<and> lookup (fs (snd (clean_build linux_env (initial stale_project (Dir []))))) [''tak-manager.spec'']
     = Some (File (Text ''b'') 420)
 \<and> lookup (fs (snd (clean_build linux_env (initial stale_project (Dir []))))) [''old.spec''] = None"
proof -
  let ?s = "initial stale_project (Dir [])"
  have 1: "lookup (fs ?s) [''tak-manager.spec''] = Some (File (Text ''b'') 420)" by code_simp
  have 2: "fst (clean_build linux_env ?s) = Inr ()" by code_simp
  have 3: "spec_files (fs ?s) = [''old.spec'', ''tak-manager.spec'']" by code_simp
  have 4: "trace ?s = []" by code_simp
  have 5: "spec_files stale_project = [''old.spec'', ''tak-manager.spec'']" by code_simp
  note r = canonical_spec_kept [of linux_env ?s "Text ''b''" 420]
  have a: "lookup (fs (snd (clean_build linux_env ?s))) [''tak-manager.spec'']
             = Some (File (Text ''b'') 420)"
    by (rule r [THEN conjunct2, THEN conjunct1, THEN mp, OF 1])
  note n = r [THEN conjunct2, THEN conjunct2, THEN mp, OF 2]
  have b: "filter is_Unlink (trace (snd (clean_build linux_env ?s))) = [Unlink [''old.spec'']]"
    using n [THEN conjunct1] by (simp add: 3 4)
  have c: "lookup (fs (snd (clean_build linux_env ?s))) [''old.spec''] = None"
    using n [THEN conjunct2] by (simp add: 3)
  show ?thesis using 5 2 b a c by blast
qed

text \<open>
  Claim C7 as stated fails in a run that raises before the loop over the packaging
  specs: with \<open>build\<close> a regular file, \<open>old.spec\<close> is a top-level spec file whose name
  differs from the canonical one, and it is not unlinked.
\<close>

theorem canonical_spec_kept_counterexample:
  "''old.spec'' \<in> set (spec_files (fs (initial build_file_project (Dir []))))
 \<and> ''old.spec'' \<noteq> ''tak-manager.spec''
 \<and> filter is_Unlink (trace (snd (clean_build linux_env (initial build_file_project (Dir []))))) = []
 \<and> lookup (fs (snd (clean_build linux_env (initial build_file_project (Dir []))))) [''old.spec'']
     = Some (File (Text ''a'') 420)"
  by code_simp

end
